theory Spec2Isabelle
  imports Complex_Main "HOL-Library.Word" "HOL-Library.Sublist"
begin

unbundle bit_operations_syntax

section \<open>JavaScript values used by the model converter\<close>

text \<open>
  The converter (convert-models.js) works on JavaScript numbers: binary64 values, the
  two infinities and NaN. A finite number is modelled by the real it denotes, and every
  arithmetic operation of the source rounds its exact result to binary64, to the nearest
  value with ties to even, overflowing to an infinity. The sign of zero is not
  modelled. The value \<open>undefined\<close> (a read past the end of an array) is \<open>None\<close>.
\<close>

datatype jsnum = NaN | NegInf | Fin real | PosInf

text \<open>Rounding to a binary floating-point format with \<open>p\<close> bits of precision and
  exponents from \<open>emin\<close> to \<open>emax\<close>: the exponent of the argument (at least
  \<open>emin\<close>, which gives the subnormal numbers) fixes the spacing of the representable
  numbers around it; the argument is rounded to the nearest multiple of that spacing,
  a tie going to the even multiple; a result of magnitude \<open>2^(emax + 1)\<close> or more
  is an infinity.\<close>

definition two_pow :: "int \<Rightarrow> real" where
  "two_pow k = (if 0 \<le> k then 2 ^ nat k else 1 / 2 ^ nat (- k))"

definition round_even :: "real \<Rightarrow> int" where
  "round_even r =
     (let f = \<lfloor>r\<rfloor>
      in if r - of_int f < 1 / 2 then f
         else if 1 / 2 < r - of_int f then f + 1
         else if even f then f else f + 1)"

definition round_float :: "int \<Rightarrow> int \<Rightarrow> int \<Rightarrow> real \<Rightarrow> jsnum" where
  "round_float p emin emax x =
     (if x = 0 then Fin 0
      else (let e = max \<lfloor>log 2 \<bar>x\<bar>\<rfloor> emin;
                ulp = two_pow (e - p + 1);
                y = of_int (round_even (x / ulp)) * ulp
            in if two_pow (emax + 1) \<le> \<bar>y\<bar> then (if x < 0 then NegInf else PosInf)
               else Fin y))"

text \<open>binary64, the format of every number of the language, and binary32, the
  format of the elements of a \<open>Float32Array\<close>. A numeric literal of the source denotes
  the binary64 value nearest to it.\<close>

definition round64 :: "real \<Rightarrow> jsnum" where
  "round64 = round_float 53 (- 1022) 1023"

definition round32 :: "real \<Rightarrow> jsnum" where
  "round32 = round_float 24 (- 126) 127"

definition fround :: "jsnum \<Rightarrow> jsnum" where
  "fround x = (case x of Fin r \<Rightarrow> round32 r | _ \<Rightarrow> x)"


text \<open>ToNumber: \<open>undefined\<close> becomes NaN.\<close>

definition to_num :: "jsnum option \<Rightarrow> jsnum" where
  "to_num x = (case x of None \<Rightarrow> NaN | Some n \<Rightarrow> n)"

text \<open>The operator \<open>*\<close> on numbers.\<close>

definition js_sign :: "jsnum \<Rightarrow> int" where
  "js_sign x = (case x of NaN \<Rightarrow> 0 | NegInf \<Rightarrow> -1 | PosInf \<Rightarrow> 1
     | Fin r \<Rightarrow> (if r < 0 then -1 else if r = 0 then 0 else 1))"

definition js_mul :: "jsnum \<Rightarrow> jsnum \<Rightarrow> jsnum" where
  "js_mul a b =
     (case (a, b) of
        (NaN, _) \<Rightarrow> NaN
      | (_, NaN) \<Rightarrow> NaN
      | (Fin x, Fin y) \<Rightarrow> round64 (x * y)
      | _ \<Rightarrow> (if js_sign a * js_sign b = 0 then NaN
              else if js_sign a * js_sign b < 0 then NegInf else PosInf))"

text \<open>The comparison \<open>a <= b\<close>, false as soon as one side is NaN.\<close>

definition js_le :: "jsnum \<Rightarrow> jsnum \<Rightarrow> bool" where
  "js_le a b =
     (case (a, b) of
        (NaN, _) \<Rightarrow> False
      | (_, NaN) \<Rightarrow> False
      | (NegInf, _) \<Rightarrow> True
      | (_, PosInf) \<Rightarrow> True
      | (Fin x, Fin y) \<Rightarrow> x \<le> y
      | _ \<Rightarrow> False)"

text \<open>The comparison \<open>a < b\<close>, \<open>Math.abs\<close>, and the operator \<open>-\<close> on two finite
  numbers.\<close>

definition js_lt :: "jsnum \<Rightarrow> jsnum \<Rightarrow> bool" where
  "js_lt a b = (js_le a b \<and> a \<noteq> b)"

definition js_abs :: "jsnum \<Rightarrow> jsnum" where
  "js_abs a = (case a of NaN \<Rightarrow> NaN | NegInf \<Rightarrow> PosInf | PosInf \<Rightarrow> PosInf
     | Fin r \<Rightarrow> Fin \<bar>r\<bar>)"

definition js_sub :: "real \<Rightarrow> real \<Rightarrow> jsnum" where
  "js_sub x y = round64 (x - y)"

text \<open>\<open>Math.min\<close> and \<open>Math.max\<close> of two arguments: NaN if either is NaN.\<close>

definition math_min :: "jsnum \<Rightarrow> jsnum \<Rightarrow> jsnum" where
  "math_min a b = (if a = NaN \<or> b = NaN then NaN else if js_le a b then a else b)"

definition math_max :: "jsnum \<Rightarrow> jsnum \<Rightarrow> jsnum" where
  "math_max a b = (if a = NaN \<or> b = NaN then NaN else if js_le a b then b else a)"

text \<open>\<open>x || 0\<close> on a number or \<open>undefined\<close>: the falsy values are
  \<open>undefined\<close>, NaN and zero.\<close>

definition js_or :: "jsnum option \<Rightarrow> jsnum \<Rightarrow> jsnum" where
  "js_or x dflt =
     (case x of None \<Rightarrow> dflt
      | Some n \<Rightarrow> (if n = NaN \<or> n = Fin 0 then dflt else n))"

text \<open>\<open>arr[k]\<close> for a cursor \<open>k\<close> that is a natural number.\<close>

definition js_at :: "'a list \<Rightarrow> nat \<Rightarrow> 'a option" where
  "js_at xs k = (if k < length xs then Some (xs ! k) else None)"

text \<open>\<open>arr[k]\<close> for a computed index: an integer, or NaN (\<open>None\<close>) when it was
  computed from \<open>undefined\<close>. A negative or too large index reads \<open>undefined\<close>.\<close>

definition js_index :: "'a list \<Rightarrow> int option \<Rightarrow> 'a option" where
  "js_index xs k =
     (case k of None \<Rightarrow> None
      | Some j \<Rightarrow> (if 0 \<le> j \<and> j < int (length xs) then Some (xs ! nat j) else None))"

text \<open>An element of an array of indices read from the face stream, each of which may
  itself be \<open>undefined\<close>.\<close>

definition js_elem :: "int option list \<Rightarrow> nat \<Rightarrow> int option" where
  "js_elem xs v = (if v < length xs then xs ! v else None)"

section \<open>The legacy mesh document\<close>

record material =
  colorDiffuse :: "(real \<times> real \<times> real) option"

record modelData =
  scale :: "jsnum option"
  vertices :: "jsnum list"
  normals :: "jsnum list"
  uvs :: "jsnum list list"
  faces :: "int list"
  materials :: "material list"

text \<open>\<open>modelData.scale || 1\<close>\<close>

definition scale_of :: "modelData \<Rightarrow> jsnum" where
  "scale_of d = js_or (scale d) (Fin 1)"

text \<open>\<open>modelData.uvs && modelData.uvs[0] ? modelData.uvs[0] : []\<close>\<close>

definition uvs0 :: "modelData \<Rightarrow> jsnum list" where
  "uvs0 d = (case uvs d of [] \<Rightarrow> [] | c # _ \<Rightarrow> c)"

section \<open>Decoding one face record\<close>

text \<open>A bit test \<open>(faceType & m) !== 0\<close>.\<close>

definition flag :: "int option \<Rightarrow> int \<Rightarrow> bool" where
  "flag faceType m = (case faceType of None \<Rightarrow> False | Some t \<Rightarrow> t AND m \<noteq> 0)"

text \<open>\<open>for (v = 0; v < n; v++) out.push(faces[i++])\<close>: the \<open>n\<close> integers from
  cursor \<open>i\<close> on, \<open>undefined\<close> past the end of the stream.\<close>

definition read_indices :: "int list \<Rightarrow> nat \<Rightarrow> nat \<Rightarrow> int option list" where
  "read_indices fs i n = map (\<lambda>v. js_at fs (i + v)) [0..<n]"

text \<open>\<open>if (b) i += n\<close>\<close>

definition skip_if :: "bool \<Rightarrow> nat \<Rightarrow> nat \<Rightarrow> nat" where
  "skip_if b n i = (if b then i + n else i)"

record face_record =
  isQuad :: bool
  hasFaceVertexUv :: bool
  hasFaceVertexNormal :: bool
  vertexIndices :: "int option list"
  faceUvIndices :: "int option list"
  faceNormalIndices :: "int option list"
  next_i :: nat

definition numVertices :: "bool \<Rightarrow> nat" where
  "numVertices quad = (if quad then 4 else 3)"

text \<open>The first half of the loop body: the flag integer at cursor \<open>i0\<close>, then the
  fields its bits declare, in the order the source reads or skips them.\<close>

definition decode_face :: "int list \<Rightarrow> nat \<Rightarrow> face_record" where
  "decode_face fs i0 =
     (let faceType = js_at fs i0;
          i1 = i0 + 1;
          quad = flag faceType 1;
          hasMaterial = flag faceType 2;
          hasFaceUv = flag faceType 4;
          hasVertexUv = flag faceType 8;
          hasFaceNormal = flag faceType 16;
          hasVertexNormal = flag faceType 32;
          hasFaceColor = flag faceType 64;
          hasFaceVertexColor = flag faceType 128;
          n = numVertices quad;
          vis = read_indices fs i1 n;
          i2 = i1 + n;
          i3 = skip_if hasMaterial 1 i2;
          i4 = skip_if hasFaceUv 1 i3;
          uis = (if hasVertexUv then read_indices fs i4 n else []);
          i5 = skip_if hasVertexUv n i4;
          i6 = skip_if hasFaceNormal 1 i5;
          nis = (if hasVertexNormal then read_indices fs i6 n else []);
          i7 = skip_if hasVertexNormal n i6;
          i8 = skip_if hasFaceColor 1 i7;
          i9 = skip_if hasFaceVertexColor n i8
      in \<lparr> isQuad = quad, hasFaceVertexUv = hasVertexUv,
           hasFaceVertexNormal = hasVertexNormal, vertexIndices = vis,
           faceUvIndices = uis, faceNormalIndices = nis, next_i = i9 \<rparr>)"

section \<open>Expanding a face into per-corner attributes\<close>

record expand_state =
  cursor :: nat
  vertexIndex :: nat
  positions :: "jsnum list"
  normalData :: "jsnum list"
  uvData :: "jsnum list"
  indices :: "nat list"

definition corner_position :: "modelData \<Rightarrow> int option \<Rightarrow> jsnum list" where
  "corner_position d vi =
     (let vIdx = map_option (\<lambda>x. x * 3) vi
      in [js_mul (to_num (js_index (vertices d) vIdx)) (scale_of d),
          js_mul (to_num (js_index (vertices d) (map_option (\<lambda>j. j + 1) vIdx))) (scale_of d),
          js_mul (to_num (js_index (vertices d) (map_option (\<lambda>j. j + 2) vIdx))) (scale_of d)])"

definition corner_normal :: "modelData \<Rightarrow> bool \<Rightarrow> int option \<Rightarrow> jsnum list" where
  "corner_normal d hasNormal ni =
     (if hasNormal \<and> ni \<noteq> None then
        (let nIdx = map_option (\<lambda>x. x * 3) ni
         in [js_or (js_index (normals d) nIdx) (Fin 0),
             js_or (js_index (normals d) (map_option (\<lambda>j. j + 1) nIdx)) (Fin 0),
             js_or (js_index (normals d) (map_option (\<lambda>j. j + 2) nIdx)) (Fin 0)])
      else [Fin 0, Fin 1, Fin 0])"

definition corner_uv :: "modelData \<Rightarrow> bool \<Rightarrow> int option \<Rightarrow> jsnum list" where
  "corner_uv d hasUv ui =
     (if hasUv \<and> ui \<noteq> None then
        (let uIdx = map_option (\<lambda>x. x * 2) ui
         in [js_or (js_index (uvs0 d) uIdx) (Fin 0),
             js_or (js_index (uvs0 d) (map_option (\<lambda>j. j + 1) uIdx)) (Fin 0)])
      else [Fin 0, Fin 0])"

text \<open>One round of the loop over the corners of a face: the state and the list
  \<open>faceVertexIndices\<close> collected so far.\<close>

definition add_corner ::
  "modelData \<Rightarrow> face_record \<Rightarrow> nat \<Rightarrow> expand_state \<times> nat list \<Rightarrow> expand_state \<times> nat list" where
  "add_corner d f v acc =
     (let s = fst acc; fvi = snd acc
      in (s\<lparr> positions := positions s @ corner_position d (js_elem (vertexIndices f) v),
              normalData := normalData s @
                 corner_normal d (hasFaceVertexNormal f) (js_elem (faceNormalIndices f) v),
              uvData := uvData s @ corner_uv d (hasFaceVertexUv f) (js_elem (faceUvIndices f) v),
              vertexIndex := vertexIndex s + 1 \<rparr>,
          fvi @ [vertexIndex s]))"

text \<open>The triangles of a face over its corner indices: a quad is split in two.\<close>

definition triangles :: "bool \<Rightarrow> nat list \<Rightarrow> nat list" where
  "triangles quad fvi =
     (if quad then [fvi ! 0, fvi ! 1, fvi ! 2] @ [fvi ! 0, fvi ! 2, fvi ! 3]
      else [fvi ! 0, fvi ! 1, fvi ! 2])"

definition emit_face :: "modelData \<Rightarrow> face_record \<Rightarrow> expand_state \<Rightarrow> expand_state" where
  "emit_face d f s =
     (let acc = fold (add_corner d f) [0..<numVertices (isQuad f)] (s, []);
          s' = fst acc; fvi = snd acc
      in s'\<lparr> indices := indices s' @ triangles (isQuad f) fvi \<rparr>)"

text \<open>The whole body of \<open>while (i < faces.length)\<close>.\<close>

definition face_step :: "modelData \<Rightarrow> expand_state \<Rightarrow> expand_state" where
  "face_step d s =
     (let f = decode_face (faces d) (cursor s)
      in (emit_face d f s)\<lparr> cursor := next_i f \<rparr>)"

lemma skip_if_ge: "i \<le> skip_if b n i"
  by (simp add: skip_if_def)

lemma next_i_gt: "i0 < next_i (decode_face fs i0)"
proof -
  have "i0 + 1 \<le> next_i (decode_face fs i0)"
    unfolding decode_face_def Let_def face_record.simps
    by (intro order_trans [OF _ skip_if_ge]) simp
  then show ?thesis by simp
qed

lemma cursor_emit_face: "cursor (emit_face d f s) = cursor s"
proof -
  have "cursor (fst (fold (add_corner d f) vs acc)) = cursor (fst acc)" for vs acc
    by (induction vs arbitrary: acc) (simp_all add: add_corner_def Let_def)
  then show ?thesis by (simp add: emit_face_def Let_def)
qed

lemma cursor_face_step: "cursor s < cursor (face_step d s)"
  by (simp add: face_step_def Let_def next_i_gt)

function while_faces :: "modelData \<Rightarrow> expand_state \<Rightarrow> expand_state" where
  "while_faces d s =
     (if cursor s < length (faces d) then while_faces d (face_step d s) else s)"
  by pat_completeness auto
termination
proof (relation "measure (\<lambda>(d, s). length (faces d) - cursor s)")
  show "wf (measure (\<lambda>(d, s). length (faces d) - cursor s))" by simp
next
  fix d :: modelData and s :: expand_state
  assume "cursor s < length (faces d)"
  moreover have "cursor s < cursor (face_step d s)" by (rule cursor_face_step)
  ultimately show "((d, face_step d s), (d, s)) \<in> measure (\<lambda>(d, s). length (faces d) - cursor s)"
    by simp
qed

declare while_faces.simps [simp del]

definition init_state :: expand_state where
  "init_state = \<lparr> cursor = 0, vertexIndex = 0, positions = [], normalData = [],
                  uvData = [], indices = [] \<rparr>"

definition expand :: "modelData \<Rightarrow> expand_state" where
  "expand d = while_faces d init_state"

section \<open>Resolving the base colour\<close>

text \<open>Strings are lists of characters. \<open>toLowerCase\<close> is modelled on ASCII file
  names: the letters A to Z are mapped to a to z and every other character is kept.\<close>

definition lower_char :: "char \<Rightarrow> char" where
  "lower_char c =
     (case map_of (zip ''ABCDEFGHIJKLMNOPQRSTUVWXYZ'' ''abcdefghijklmnopqrstuvwxyz'') c of
        None \<Rightarrow> c
      | Some l \<Rightarrow> l)"

definition toLowerCase :: "string \<Rightarrow> string" where
  "toLowerCase s = map lower_char s"

text \<open>\<open>s.includes(key)\<close>: \<open>key\<close> occurs in \<open>s\<close> as a contiguous substring.\<close>

fun str_includes :: "string \<Rightarrow> string \<Rightarrow> bool" where
  "str_includes [] key = (key = [])"
| "str_includes (c # cs) key = (prefix key (c # cs) \<or> str_includes cs key)"

text \<open>\<open>s.replace(pat, rep)\<close> with a string pattern: the first occurrence only.\<close>

fun replace_first :: "string \<Rightarrow> string \<Rightarrow> string \<Rightarrow> string" where
  "replace_first pat rep [] = (if pat = [] then rep else [])"
| "replace_first pat rep (c # cs) =
     (if prefix pat (c # cs) then rep @ drop (length pat) (c # cs)
      else c # replace_first pat rep cs)"

text \<open>The table \<open>colorMap\<close>. \<open>Object.entries\<close> lists string keys in the order
  they were written, so the table is an association list in that order. The constants
  of the table and of the default stand for the binary64 values of their literals; they
  are handed on as they are and never computed with.\<close>

definition colorMap :: "(string \<times> real list) list" where
  "colorMap =
     [(''white'', [0.95, 0.95, 0.95, 1.0]),
      (''gray'', [0.6, 0.6, 0.6, 1.0]),
      (''grey'', [0.6, 0.6, 0.6, 1.0]),
      (''blue'', [0.2, 0.4, 0.7, 1.0]),
      (''orange'', [0.9, 0.5, 0.2, 1.0]),
      (''green'', [0.3, 0.6, 0.3, 1.0]),
      (''brown'', [0.55, 0.35, 0.2, 1.0]),
      (''walnut'', [0.4, 0.25, 0.15, 1.0]),
      (''oak'', [0.7, 0.55, 0.35, 1.0]),
      (''whiteoak'', [0.8, 0.7, 0.5, 1.0]),
      (''smoke'', [0.4, 0.4, 0.45, 1.0]),
      (''black'', [0.15, 0.15, 0.15, 1.0])]"

definition defaultColor :: "real list" where
  "defaultColor = [0.6, 0.5, 0.4, 1.0]"

text \<open>The loop over the table: the first key the lowercased name includes sets
  \<open>baseColor\<close> and leaves the loop.\<close>

fun keyword_scan :: "string \<Rightarrow> (string \<times> real list) list \<Rightarrow> real list \<Rightarrow> real list" where
  "keyword_scan lowerName [] baseColor = baseColor"
| "keyword_scan lowerName ((key, color) # rest) baseColor =
     (if str_includes lowerName key then color else keyword_scan lowerName rest baseColor)"

text \<open>The test of the material loop on a diffuse colour, whose channels are binary64
  values: \<open>c[0] > 0.9\<close> and \<open>Math.abs(c[0] - c[1]) < 0.05\<close> compare with the
  binary64 values of the literals, and the difference is rounded.\<close>

definition explicit_color :: "real \<times> real \<times> real \<Rightarrow> bool" where
  "explicit_color c =
     (case c of (c0, c1, c2) \<Rightarrow>
        \<not> (js_lt (round64 0.9) (Fin c0) \<and> js_lt (round64 0.9) (Fin c1)
             \<and> js_lt (round64 0.9) (Fin c2)) \<and>
        \<not> (js_lt (js_abs (js_sub c0 c1)) (round64 0.05)
             \<and> js_lt (js_abs (js_sub c1 c2)) (round64 0.05)))"

text \<open>The loop over the materials: the first diffuse colour passing the test sets
  \<open>baseColor\<close> and leaves the loop.\<close>

fun material_scan :: "material list \<Rightarrow> real list \<Rightarrow> real list" where
  "material_scan [] baseColor = baseColor"
| "material_scan (mat # rest) baseColor =
     (case colorDiffuse mat of
        None \<Rightarrow> material_scan rest baseColor
      | Some c \<Rightarrow>
          (if explicit_color c then [fst c, fst (snd c), snd (snd c), 1.0]
           else material_scan rest baseColor))"

definition resolve_color :: "modelData \<Rightarrow> string \<Rightarrow> real list" where
  "resolve_color d fileName =
     (let baseColor = defaultColor;
          lowerName = toLowerCase fileName;
          baseColor = keyword_scan lowerName colorMap baseColor
      in if length (materials d) > 0 then material_scan (materials d) baseColor
         else baseColor)"

section \<open>Bounding box\<close>

record bbox =
  minX :: jsnum
  minY :: jsnum
  minZ :: jsnum
  maxX :: jsnum
  maxY :: jsnum
  maxZ :: jsnum

definition bbox_init :: bbox where
  "bbox_init = \<lparr> minX = PosInf, minY = PosInf, minZ = PosInf,
                 maxX = NegInf, maxY = NegInf, maxZ = NegInf \<rparr>"

definition bbox_add :: "bbox \<Rightarrow> jsnum \<Rightarrow> jsnum \<Rightarrow> jsnum \<Rightarrow> bbox" where
  "bbox_add b x y z =
     \<lparr> minX = math_min (minX b) x, minY = math_min (minY b) y, minZ = math_min (minZ b) z,
       maxX = math_max (maxX b) x, maxY = math_max (maxY b) y, maxZ = math_max (maxZ b) z \<rparr>"

text \<open>\<open>for (j = 0; j < positions.length; j += 3)\<close>: three numbers a round; a last
  round that runs past the end reads \<open>undefined\<close>, which \<open>Math.min\<close> turns into NaN.\<close>

fun bounds_loop :: "jsnum list \<Rightarrow> bbox \<Rightarrow> bbox" where
  "bounds_loop [] b = b"
| "bounds_loop [x] b = bbox_add b x NaN NaN"
| "bounds_loop [x, y] b = bbox_add b x y NaN"
| "bounds_loop (x # y # z # rest) b = bounds_loop rest (bbox_add b x y z)"

record bounds =
  bmin :: "jsnum list"
  bmax :: "jsnum list"

section \<open>convertThreeJsJsonToGltf\<close>

text \<open>A \<open>Float32Array\<close> is the list of its elements, each the argument of the
  constructor rounded to binary32; the index buffer is one of the two unsigned typed
  arrays, whose constructors reduce each element modulo the element width.\<close>

datatype index_array = Uint16Array "16 word list" | Uint32Array "32 word list"

record converted =
  positionBuffer :: "jsnum list"
  normalBuffer :: "jsnum list"
  uvBuffer :: "jsnum list"
  indexBuffer :: index_array
  baseColor :: "real list"
  bounds :: bounds
  name :: string

definition convertThreeJsJsonToGltf :: "modelData \<Rightarrow> string \<Rightarrow> converted" where
  "convertThreeJsJsonToGltf d fileName =
     (let s = expand d;
          color = resolve_color d fileName;
          idx = (if length (indices s) < 65536 then Uint16Array (map of_nat (indices s))
                 else Uint32Array (map of_nat (indices s)));
          b = bounds_loop (positions s) bbox_init
      in \<lparr> positionBuffer = map fround (positions s),
           normalBuffer = map fround (normalData s),
           uvBuffer = map fround (uvData s),
           indexBuffer = idx,
           baseColor = color,
           bounds = \<lparr> bmin = [minX b, minY b, minZ b], bmax = [maxX b, maxY b, maxZ b] \<rparr>,
           name = replace_first ''.js'' [] fileName \<rparr>)"

section \<open>createGlb\<close>

type_synonym bytes = "8 word list"

datatype error = SyntaxError | RangeError

text \<open>\<open>Buffer.from(JSON.stringify(gltf))\<close> depends on the formatting of floating-point
  numbers, and the bytes of a \<open>Float32Array\<close> on the bit pattern of its binary32
  elements. Both are parameters of the model: \<open>stringify\<close> gives the UTF-8 bytes of
  the scene description and \<open>f32bits\<close> the 32 bits of an element. Typed arrays are laid out with the
  least significant byte first. The memory limits of the platform (the largest array or
  \<open>Buffer\<close>) are not modelled.\<close>

definition le_bytes :: "nat \<Rightarrow> 'a::len word \<Rightarrow> bytes" where
  "le_bytes n w = map (\<lambda>k. ucast (drop_bit (8 * k) w)) [0..<n]"

definition float32_bytes :: "(jsnum \<Rightarrow> 32 word) \<Rightarrow> jsnum list \<Rightarrow> bytes" where
  "float32_bytes f32bits xs = concat (map (\<lambda>x. le_bytes 4 (f32bits x)) xs)"

definition index_bytes :: "index_array \<Rightarrow> bytes" where
  "index_bytes a =
     (case a of Uint16Array ws \<Rightarrow> concat (map (le_bytes 2) ws)
      | Uint32Array ws \<Rightarrow> concat (map (le_bytes 4) ws))"

definition index_length :: "index_array \<Rightarrow> nat" where
  "index_length a = (case a of Uint16Array ws \<Rightarrow> length ws | Uint32Array ws \<Rightarrow> length ws)"

text \<open>\<open>data.indices instanceof Uint16Array\<close>\<close>

definition is_Uint16Array :: "index_array \<Rightarrow> bool" where
  "is_Uint16Array a = (case a of Uint16Array _ \<Rightarrow> True | Uint32Array _ \<Rightarrow> False)"

text \<open>\<open>pad = (len) => (4 - (len % 4)) % 4\<close>\<close>

definition pad :: "nat \<Rightarrow> nat" where
  "pad len = (4 - len mod 4) mod 4"

record accessor =
  bufferView :: nat
  componentType :: nat
  count :: real
  accType :: string
  accMin :: "jsnum list option"
  accMax :: "jsnum list option"

record buffer_view =
  buffer :: nat
  byteOffset :: nat
  byteLength :: nat
  target :: nat

record gltf =
  nodeName :: string
  meshName :: string
  attrPOSITION :: nat
  attrNORMAL :: nat
  attrTEXCOORD_0 :: nat
  primIndices :: nat
  primMaterial :: nat
  baseColorFactor :: "real list"
  metallicFactor :: real
  roughnessFactor :: real
  accessors :: "accessor list"
  bufferViews :: "buffer_view list"
  buffers :: "nat list"

text \<open>The object \<open>gltf\<close> that createGlb builds from the converted data and the four
  segment lengths. The constant members (asset, scene, scenes, the node's mesh) are
  left out; \<open>buffers\<close> lists the \<open>byteLength\<close> of each buffer. The counts are
  quotients of lengths, exact whenever the length is a multiple of the divisor, as it
  is for converted data.\<close>

definition gltf_json :: "converted \<Rightarrow> nat \<Rightarrow> nat \<Rightarrow> nat \<Rightarrow> nat \<Rightarrow> gltf" where
  "gltf_json data posLen normLen uvLen idxLen =
     (let bufferLength = posLen + pad posLen + normLen + pad normLen + uvLen + pad uvLen
                           + idxLen + pad idxLen
      in \<lparr> nodeName = name data,
           meshName = name data,
           attrPOSITION = 0, attrNORMAL = 1, attrTEXCOORD_0 = 2,
           primIndices = 3, primMaterial = 0,
           baseColorFactor = baseColor data,
           metallicFactor = 0.0,
           roughnessFactor = 0.8,
           accessors =
             [\<lparr> bufferView = 0, componentType = 5126,
                 count = real (length (positionBuffer data)) / 3, accType = ''VEC3'',
                 accMin = Some (bmin (bounds data)), accMax = Some (bmax (bounds data)) \<rparr>,
              \<lparr> bufferView = 1, componentType = 5126,
                 count = real (length (normalBuffer data)) / 3, accType = ''VEC3'',
                 accMin = None, accMax = None \<rparr>,
              \<lparr> bufferView = 2, componentType = 5126,
                 count = real (length (uvBuffer data)) / 2, accType = ''VEC2'',
                 accMin = None, accMax = None \<rparr>,
              \<lparr> bufferView = 3,
                 componentType = (if is_Uint16Array (indexBuffer data) then 5123 else 5125),
                 count = real (index_length (indexBuffer data)), accType = ''SCALAR'',
                 accMin = None, accMax = None \<rparr>],
           bufferViews =
             [\<lparr> buffer = 0, byteOffset = 0, byteLength = posLen, target = 34962 \<rparr>,
              \<lparr> buffer = 0, byteOffset = posLen + pad posLen, byteLength = normLen,
                 target = 34962 \<rparr>,
              \<lparr> buffer = 0, byteOffset = posLen + pad posLen + normLen + pad normLen,
                 byteLength = uvLen, target = 34962 \<rparr>,
              \<lparr> buffer = 0,
                 byteOffset = posLen + pad posLen + normLen + pad normLen + uvLen + pad uvLen,
                 byteLength = idxLen, target = 34963 \<rparr>],
           buffers = [bufferLength] \<rparr>)"

text \<open>\<open>src.copy(dst, off)\<close> and the writes into a \<open>Buffer\<close>: the bytes of \<open>src\<close>
  replace those of \<open>dst\<close> from offset \<open>off\<close> on; what does not fit is dropped, and
  the length of \<open>dst\<close> never changes.\<close>

definition buf_copy :: "bytes \<Rightarrow> bytes \<Rightarrow> nat \<Rightarrow> bytes" where
  "buf_copy src dst off =
     take off dst @ take (length dst - off) src @ drop (off + length src) dst"

definition u32le :: "nat \<Rightarrow> bytes" where
  "u32le v = [of_nat v, of_nat (v div 256), of_nat (v div 65536), of_nat (v div 16777216)]"

text \<open>Reading an unsigned little-endian integer back.\<close>

definition le_value :: "bytes \<Rightarrow> nat" where
  "le_value bs = foldr (\<lambda>b acc. unat b + 256 * acc) bs 0"

text \<open>\<open>buf.writeUInt32LE(value, offset)\<close> throws a RangeError for a value that does not
  fit 32 bits or an offset that leaves no room for four bytes.\<close>

definition writeUInt32LE :: "bytes \<Rightarrow> nat \<Rightarrow> nat \<Rightarrow> error + bytes" where
  "writeUInt32LE buf v offset =
     (if v < 2 ^ 32 \<and> offset + 4 \<le> length buf then Inr (buf_copy (u32le v) buf offset)
      else Inl RangeError)"

definition bind_err :: "error + 'a \<Rightarrow> ('a \<Rightarrow> error + 'b) \<Rightarrow> error + 'b" where
  "bind_err r f = (case r of Inl e \<Rightarrow> Inl e | Inr x \<Rightarrow> f x)"

text \<open>The packed binary buffer: \<open>Buffer.alloc\<close> gives zero bytes, and the four
  segments are copied in at their offsets.\<close>

definition bin_buffer :: "bytes \<Rightarrow> bytes \<Rightarrow> bytes \<Rightarrow> bytes \<Rightarrow> bytes" where
  "bin_buffer posBytes normBytes uvBytes idxBytes =
     (let posLen = length posBytes; normLen = length normBytes;
          uvLen = length uvBytes; idxLen = length idxBytes;
          bufferLength = posLen + pad posLen + normLen + pad normLen + uvLen + pad uvLen
                           + idxLen + pad idxLen;
          binBuffer = replicate bufferLength 0;
          offset = 0;
          binBuffer = buf_copy posBytes binBuffer offset;
          offset = offset + (posLen + pad posLen);
          binBuffer = buf_copy normBytes binBuffer offset;
          offset = offset + (normLen + pad normLen);
          binBuffer = buf_copy uvBytes binBuffer offset;
          offset = offset + (uvLen + pad uvLen)
      in buf_copy idxBytes binBuffer offset)"

text \<open>\<open>for (p = 0; p < gltfPadding; p++) glb[offset++] = 0x20\<close>\<close>

definition space_padding :: "bytes \<Rightarrow> nat \<Rightarrow> nat \<Rightarrow> bytes" where
  "space_padding glb offset n = fold (\<lambda>p g. g[offset + p := 0x20]) [0..<n] glb"

text \<open>The second half of createGlb, under the comment \<open>GLB structure\<close>: the
  container is allocated and filled from the serialised scene description, its
  padding, the packed buffer and the declared length of that buffer.\<close>

definition write_glb :: "bytes \<Rightarrow> nat \<Rightarrow> bytes \<Rightarrow> nat \<Rightarrow> error + bytes" where
  "write_glb gltfBytes gltfPadding binBuffer bufferLength =
     (let glbLength = 12 + 8 + length gltfBytes + gltfPadding + 8 + bufferLength;
          glb = replicate glbLength 0
      in bind_err (writeUInt32LE glb 0x46546C67 0) (\<lambda>glb.
         bind_err (writeUInt32LE glb 2 4) (\<lambda>glb.
         bind_err (writeUInt32LE glb glbLength 8) (\<lambda>glb.
         bind_err (writeUInt32LE glb (length gltfBytes + gltfPadding) 12) (\<lambda>glb.
         bind_err (writeUInt32LE glb 0x4E4F534A 16) (\<lambda>glb.
           (let glb = buf_copy gltfBytes glb 20;
                offset = 20 + length gltfBytes;
                glb = space_padding glb offset gltfPadding;
                offset = offset + gltfPadding
            in bind_err (writeUInt32LE glb bufferLength offset) (\<lambda>glb.
               bind_err (writeUInt32LE glb 0x004E4942 (offset + 4)) (\<lambda>glb.
                 Inr (buf_copy binBuffer glb (offset + 8)))))))))))"

definition createGlb ::
  "(gltf \<Rightarrow> bytes) \<Rightarrow> (jsnum \<Rightarrow> 32 word) \<Rightarrow> converted \<Rightarrow> error + bytes" where
  "createGlb stringify f32bits data =
     (let posBytes = float32_bytes f32bits (positionBuffer data);
          normBytes = float32_bytes f32bits (normalBuffer data);
          uvBytes = float32_bytes f32bits (uvBuffer data);
          idxBytes = index_bytes (indexBuffer data);
          posLen = length posBytes; normLen = length normBytes;
          uvLen = length uvBytes; idxLen = length idxBytes;
          bufferLength = posLen + pad posLen + normLen + pad normLen + uvLen + pad uvLen
                           + idxLen + pad idxLen;
          gltfBytes = stringify (gltf_json data posLen normLen uvLen idxLen);
          gltfPadding = (4 - length gltfBytes mod 4) mod 4;
          binBuffer = bin_buffer posBytes normBytes uvBytes idxBytes
      in write_glb gltfBytes gltfPadding binBuffer bufferLength)"

section \<open>convertModels\<close>

text \<open>The batch loop over the \<open>.js\<close> files of the models directory, each given with its
  content. \<open>JSON.parse\<close> is a parameter (\<open>None\<close> when it throws); the output directory
  is a map from file names to contents. An exception inside \<open>try\<close> is caught and
  logged, and \<open>writeFileSync\<close> is then not reached.\<close>

definition endsWith :: "string \<Rightarrow> string \<Rightarrow> bool" where
  "endsWith s suf = suffix suf s"

definition convert_file ::
  "(string \<Rightarrow> modelData option) \<Rightarrow> (gltf \<Rightarrow> bytes) \<Rightarrow> (jsnum \<Rightarrow> 32 word) \<Rightarrow>
     string \<Rightarrow> string \<Rightarrow> error + bytes" where
  "convert_file parse stringify f32bits file content =
     (case parse content of
        None \<Rightarrow> Inl SyntaxError
      | Some d \<Rightarrow> createGlb stringify f32bits (convertThreeJsJsonToGltf d file))"

fun convert_loop ::
  "(string \<Rightarrow> modelData option) \<Rightarrow> (gltf \<Rightarrow> bytes) \<Rightarrow> (jsnum \<Rightarrow> 32 word) \<Rightarrow>
     (string \<times> string) list \<Rightarrow> (string \<rightharpoonup> bytes) \<Rightarrow> (string \<rightharpoonup> bytes)" where
  "convert_loop parse stringify f32bits [] out = out"
| "convert_loop parse stringify f32bits ((file, content) # rest) out =
     (let outputName = replace_first ''.js'' ''.glb'' file
      in case convert_file parse stringify f32bits file content of
           Inr glb \<Rightarrow> convert_loop parse stringify f32bits rest (out(outputName \<mapsto> glb))
         | Inl e \<Rightarrow> convert_loop parse stringify f32bits rest out)"

definition convertModels ::
  "(string \<Rightarrow> modelData option) \<Rightarrow> (gltf \<Rightarrow> bytes) \<Rightarrow> (jsnum \<Rightarrow> 32 word) \<Rightarrow>
     (string \<times> string) list \<Rightarrow> (string \<rightharpoonup> bytes) \<Rightarrow> (string \<rightharpoonup> bytes)" where
  "convertModels parse stringify f32bits modelsDir outputDir =
     convert_loop parse stringify f32bits
       (filter (\<lambda>(f, content). endsWith f ''.js'') modelsDir) outputDir"

section \<open>The container that createGlb writes\<close>

text \<open>Names for the values createGlb computes on the way: the serialised scene
  description (\<open>gltfBytes\<close>), the packed buffer (\<open>binBuffer\<close>), the total length
  (\<open>glbLength\<close>), and the three parts laid end to end.\<close>

definition scene_bytes :: "(gltf \<Rightarrow> bytes) \<Rightarrow> (jsnum \<Rightarrow> 32 word) \<Rightarrow> converted \<Rightarrow> bytes" where
  "scene_bytes stringify f32bits data =
     stringify (gltf_json data
       (length (float32_bytes f32bits (positionBuffer data)))
       (length (float32_bytes f32bits (normalBuffer data)))
       (length (float32_bytes f32bits (uvBuffer data)))
       (length (index_bytes (indexBuffer data))))"

definition packed_buffer :: "(jsnum \<Rightarrow> 32 word) \<Rightarrow> converted \<Rightarrow> bytes" where
  "packed_buffer f32bits data =
     bin_buffer (float32_bytes f32bits (positionBuffer data))
       (float32_bytes f32bits (normalBuffer data))
       (float32_bytes f32bits (uvBuffer data))
       (index_bytes (indexBuffer data))"

definition container_length ::
  "(gltf \<Rightarrow> bytes) \<Rightarrow> (jsnum \<Rightarrow> 32 word) \<Rightarrow> converted \<Rightarrow> nat" where
  "container_length stringify f32bits data =
     12 + (8 + (length (scene_bytes stringify f32bits data)
                 + pad (length (scene_bytes stringify f32bits data))))
        + (8 + length (packed_buffer f32bits data))"

definition container ::
  "(gltf \<Rightarrow> bytes) \<Rightarrow> (jsnum \<Rightarrow> 32 word) \<Rightarrow> converted \<Rightarrow> bytes" where
  "container stringify f32bits data =
     u32le 0x46546C67 @ u32le 2 @ u32le (container_length stringify f32bits data) @
     u32le (length (scene_bytes stringify f32bits data)
              + pad (length (scene_bytes stringify f32bits data))) @
     u32le 0x4E4F534A @
     scene_bytes stringify f32bits data @
     replicate (pad (length (scene_bytes stringify f32bits data))) 0x20 @
     u32le (length (packed_buffer f32bits data)) @ u32le 0x004E4942 @
     packed_buffer f32bits data"

text \<open>Stand-ins for the three parameters, to run the model on concrete documents: a
  serialiser that answers the two bytes \<open>{}\<close>, the binary32 patterns of the numbers 0
  and 1, of the infinities and of NaN, and a parser that answers a given document.\<close>

definition demo_stringify :: "gltf \<Rightarrow> bytes" where
  "demo_stringify g = [0x7B, 0x7D]"

definition demo_f32bits :: "jsnum \<Rightarrow> 32 word" where
  "demo_f32bits x =
     (case x of NaN \<Rightarrow> 0x7FC00000 | NegInf \<Rightarrow> 0xFF800000 | PosInf \<Rightarrow> 0x7F800000
      | Fin r \<Rightarrow> (if r = 1 then 0x3F800000 else 0))"

definition demo_parse :: "modelData \<Rightarrow> string \<Rightarrow> modelData option" where
  "demo_parse d content = Some d"

section \<open>The face stream as a sequence of records\<close>

text \<open>The records the loop decodes, in order: the one at cursor \<open>i\<close>, then those
  from the cursor it leaves behind, as long as the cursor is inside the stream.\<close>

function faces_from :: "int list \<Rightarrow> nat \<Rightarrow> face_record list" where
  "faces_from fs i =
     (if i < length fs then decode_face fs i # faces_from fs (next_i (decode_face fs i))
      else [])"
  by pat_completeness auto
termination
proof (relation "measure (\<lambda>(fs, i). length fs - i)")
  show "wf (measure (\<lambda>(fs, i). length fs - i))" by simp
next
  fix fs :: "int list" and i :: nat
  assume "i < length fs"
  moreover have "i < next_i (decode_face fs i)" by (rule next_i_gt)
  ultimately show "((fs, next_i (decode_face fs i)), (fs, i)) \<in> measure (\<lambda>(fs, i). length fs - i)"
    by simp
qed

declare faces_from.simps [simp del]

text \<open>The number of triangles and of corners that the records stand for.\<close>

definition num_triangles :: "face_record \<Rightarrow> nat" where
  "num_triangles f = (if isQuad f then 2 else 1)"

definition num_corners :: "face_record list \<Rightarrow> nat" where
  "num_corners fs = sum_list (map (\<lambda>f. numVertices (isQuad f)) fs)"

text \<open>Fan triangulation over consecutive corner indices starting at \<open>k\<close>: a quad takes
  four fresh indices and gives (c0,c1,c2), (c0,c2,c3); a triangle takes three.\<close>

fun triangulate :: "nat \<Rightarrow> bool list \<Rightarrow> nat list" where
  "triangulate k [] = []"
| "triangulate k (q # qs) =
     (if q then [k, k + 1, k + 2, k, k + 2, k + 3] @ triangulate (k + 4) qs
      else [k, k + 1, k + 2] @ triangulate (k + 3) qs)"

text \<open>A stream of \<open>n\<close> quads without optional fields, all over the vertices 0 to 3.\<close>

definition quad_stream :: "nat \<Rightarrow> int list" where
  "quad_stream n = concat (replicate n [1, 0, 1, 2, 3])"

text \<open>The values on axis \<open>k\<close> (0, 1 or 2) of a flat list of positions: the
  \<open>k\<close>-th component of each triple.\<close>

definition axis_values :: "nat \<Rightarrow> jsnum list \<Rightarrow> jsnum list" where
  "axis_values k ps = map (\<lambda>c. ps ! (3 * c + k)) [0..<length ps div 3]"

section \<open>Properties of the rounding\<close>

text \<open>Once the exponent of the argument is known, rounding is a computation on
  rational numbers; the values of the numbers and literals used below follow.\<close>

lemma two_pow_pos: "0 < two_pow k"
  by (simp add: two_pow_def)

lemma two_pow_powr: "two_pow k = 2 powr of_int k"
  by (simp add: two_pow_def powr_realpow [symmetric] powr_minus divide_inverse)

lemma floor_log2_eq:
  assumes "two_pow e \<le> x" "x < two_pow (e + 1)"
  shows "\<lfloor>log 2 x\<rfloor> = e"
proof -
  have x: "0 < x" using assms(1) two_pow_pos [of e] by simp
  have "of_int e \<le> log 2 x" using assms(1) x by (simp add: two_pow_powr le_log_iff)
  moreover have "log 2 x < of_int e + 1"
    using assms(2) x by (simp add: two_pow_powr log_less_iff)
  ultimately show ?thesis by linarith
qed

lemma round_float_eval:
  assumes "two_pow e \<le> \<bar>x\<bar>" "\<bar>x\<bar> < two_pow (e + 1)" "emin \<le> e"
  shows "round_float p emin emax x =
     (if two_pow (emax + 1) \<le> \<bar>of_int (round_even (x / two_pow (e - p + 1))) * two_pow (e - p + 1)\<bar>
      then (if x < 0 then NegInf else PosInf)
      else Fin (of_int (round_even (x / two_pow (e - p + 1))) * two_pow (e - p + 1)))"
proof -
  have "x \<noteq> 0" using assms(1) two_pow_pos [of e] by auto
  moreover have "max \<lfloor>log 2 \<bar>x\<bar>\<rfloor> emin = e"
    using floor_log2_eq [OF assms(1,2)] assms(3) by simp
  ultimately show ?thesis by (simp add: round_float_def Let_def)
qed

lemma round_float_0 [simp]: "round64 0 = Fin 0" "round32 0 = Fin 0"
  by (simp_all add: round64_def round32_def round_float_def)

lemma round64_1: "round64 1 = Fin 1"
  unfolding round64_def
  by (subst round_float_eval [of 0]) (simp_all add: two_pow_def round_even_def)

lemma round64_2: "round64 2 = Fin 2"
  unfolding round64_def
  by (subst round_float_eval [of 1]) (simp_all add: two_pow_def round_even_def)

lemma round32_1: "round32 1 = Fin 1"
  unfolding round32_def
  by (subst round_float_eval [of 0]) (simp_all add: two_pow_def round_even_def)

lemma round32_2: "round32 2 = Fin 2"
  unfolding round32_def
  by (subst round_float_eval [of 1]) (simp_all add: two_pow_def round_even_def)

lemma lit_0_9: "round64 (9 / 10) = Fin (8106479329266893 / 9007199254740992)"
  unfolding round64_def
  by (subst round_float_eval [of "- 1"]) (simp_all add: two_pow_def round_even_def)

lemma lit_0_05: "round64 (1 / 20) = Fin (7205759403792794 / 144115188075855872)"
  unfolding round64_def
  by (subst round_float_eval [of "- 5"]) (simp_all add: two_pow_def round_even_def)

lemma lit_0_1: "round64 (1 / 10) = Fin (3602879701896397 / 36028797018963968)"
  unfolding round64_def
  by (subst round_float_eval [of "- 4"]) (simp_all add: two_pow_def round_even_def)

lemma f32_0_1: "round32 (3602879701896397 / 36028797018963968) = Fin (13421773 / 134217728)"
  unfolding round32_def
  by (subst round_float_eval [of "- 4"]) (simp_all add: two_pow_def round_even_def)

lemma round64_0_1:
  "round64 (3602879701896397 / 36028797018963968) = Fin (3602879701896397 / 36028797018963968)"
  unfolding round64_def
  by (subst round_float_eval [of "- 4"]) (simp_all add: two_pow_def round_even_def)

lemmas round_eval = round64_1 round64_2 round32_1 round32_2 fround_def

section \<open>Properties of the expansion loop\<close>

text \<open>The loop over the corners of a face in closed form, the loop over the stream as
  a fold over its records, and the lengths of the lists it builds.\<close>

lemma upt_0_3: "[0..<3] = [0, 1, 2]"
  by (simp add: upt_rec)

lemma upt_0_4: "[0..<4] = [0, 1, 2, 3]"
  by (simp add: upt_rec)

lemma while_faces_step:
  "cursor s < length (faces d) \<Longrightarrow> while_faces d s = while_faces d (face_step d s)"
  by (subst while_faces.simps) simp

lemma while_faces_done: "\<not> cursor s < length (faces d) \<Longrightarrow> while_faces d s = s"
  by (subst while_faces.simps) simp

lemma fold_add_corner:
  "fold (add_corner d f) vs (s, fvi) =
     (s\<lparr> positions := positions s @ concat (map (\<lambda>v. corner_position d (js_elem (vertexIndices f) v)) vs),
         normalData := normalData s @
            concat (map (\<lambda>v. corner_normal d (hasFaceVertexNormal f) (js_elem (faceNormalIndices f) v)) vs),
         uvData := uvData s @
            concat (map (\<lambda>v. corner_uv d (hasFaceVertexUv f) (js_elem (faceUvIndices f) v)) vs),
         vertexIndex := vertexIndex s + length vs \<rparr>,
      fvi @ [vertexIndex s..<vertexIndex s + length vs])"
proof (induction vs arbitrary: s fvi)
  case Nil
  show ?case by simp
next
  case (Cons v vs)
  define s' where "s' = s\<lparr> positions := positions s @ corner_position d (js_elem (vertexIndices f) v),
              normalData := normalData s @
                 corner_normal d (hasFaceVertexNormal f) (js_elem (faceNormalIndices f) v),
              uvData := uvData s @ corner_uv d (hasFaceVertexUv f) (js_elem (faceUvIndices f) v),
              vertexIndex := vertexIndex s + 1 \<rparr>"
  have step: "add_corner d f v (s, fvi) = (s', fvi @ [vertexIndex s])"
    by (simp add: add_corner_def s'_def)
  have u: "[vertexIndex s..<vertexIndex s + length (v # vs)] =
      vertexIndex s # [vertexIndex s'..<vertexIndex s' + length vs]"
  proof -
    have "[vertexIndex s..<vertexIndex s + length (v # vs)] =
        vertexIndex s # [Suc (vertexIndex s)..<vertexIndex s + length (v # vs)]"
      by (rule upt_conv_Cons) simp
    moreover have "vertexIndex s' = Suc (vertexIndex s)" by (simp add: s'_def)
    ultimately show ?thesis by simp
  qed
  have "fold (add_corner d f) (v # vs) (s, fvi) = fold (add_corner d f) vs (s', fvi @ [vertexIndex s])"
    by (simp add: step)
  also note Cons.IH [of s' "fvi @ [vertexIndex s]"]
  finally show ?case
    unfolding u by (simp add: s'_def)
qed

lemma emit_face_eq:
  "emit_face d f s =
     s\<lparr> positions := positions s @
            concat (map (\<lambda>v. corner_position d (js_elem (vertexIndices f) v)) [0..<numVertices (isQuad f)]),
        normalData := normalData s @
            concat (map (\<lambda>v. corner_normal d (hasFaceVertexNormal f) (js_elem (faceNormalIndices f) v))
                     [0..<numVertices (isQuad f)]),
        uvData := uvData s @
            concat (map (\<lambda>v. corner_uv d (hasFaceVertexUv f) (js_elem (faceUvIndices f) v))
                     [0..<numVertices (isQuad f)]),
        vertexIndex := vertexIndex s + numVertices (isQuad f),
        indices := indices s @
            triangles (isQuad f) [vertexIndex s..<vertexIndex s + numVertices (isQuad f)] \<rparr>"
  by (simp add: emit_face_def Let_def fold_add_corner)

lemmas expand_eval = expand_def init_state_def while_faces_step while_faces_done
  face_step_def emit_face_eq triangles_def corner_position_def corner_normal_def
  corner_uv_def js_elem_def js_index_def js_mul_def to_num_def scale_of_def js_or_def
  uvs0_def decode_face_def Let_def js_at_def flag_def numVertices_def read_indices_def
  skip_if_def upt_0_3 upt_0_4 upt_rec round_eval

lemmas bounds_eval = bbox_init_def bbox_add_def math_min_def math_max_def js_le_def

lemmas color_eval = resolve_color_def toLowerCase_def lower_char_def colorMap_def
  defaultColor_def explicit_color_def js_lt_def js_le_def js_abs_def js_sub_def
  lit_0_9 lit_0_05 round64_1


lemma faces_from_step:
  "i < length fs \<Longrightarrow>
     faces_from fs i = decode_face fs i # faces_from fs (next_i (decode_face fs i))"
  by (subst faces_from.simps) simp

lemma faces_from_done: "\<not> i < length fs \<Longrightarrow> faces_from fs i = []"
  by (subst faces_from.simps) simp

lemma while_faces_fold:
  "while_faces d s =
     fold (\<lambda>f s. (emit_face d f s)\<lparr> cursor := next_i f \<rparr>) (faces_from (faces d) (cursor s)) s"
proof (induction d s rule: while_faces.induct)
  case (1 d s)
  show ?case
  proof (cases "cursor s < length (faces d)")
    case True
    have c: "cursor (face_step d s) = next_i (decode_face (faces d) (cursor s))"
      by (simp add: face_step_def Let_def)
    show ?thesis
      using "1.IH" [OF True] True
      by (simp add: while_faces_step faces_from_step c) (simp add: face_step_def Let_def)
  next
    case False
    then show ?thesis by (simp add: while_faces_done faces_from_done)
  qed
qed

lemma triangles_upt:
  "triangles q [k..<k + numVertices q] =
     (if q then [k, k + 1, k + 2, k, k + 2, k + 3] else [k, k + 1, k + 2])"
  by (simp add: triangles_def numVertices_def)

lemma indices_emit_face:
  "indices (emit_face d f s) =
     indices s @ (if isQuad f then [vertexIndex s, vertexIndex s + 1, vertexIndex s + 2,
                                    vertexIndex s, vertexIndex s + 2, vertexIndex s + 3]
                  else [vertexIndex s, vertexIndex s + 1, vertexIndex s + 2])"
  by (simp add: emit_face_eq triangles_upt)

lemma vertexIndex_emit_face:
  "vertexIndex (emit_face d f s) = vertexIndex s + numVertices (isQuad f)"
  by (simp add: emit_face_eq)

lemma fold_faces_indices:
  "indices (fold (\<lambda>f s. (emit_face d f s)\<lparr> cursor := next_i f \<rparr>) fs s) =
     indices s @ triangulate (vertexIndex s) (map isQuad fs)"
proof (induction fs arbitrary: s)
  case Nil
  show ?case by simp
next
  case (Cons f fs)
  show ?case
    by (simp add: Cons.IH indices_emit_face vertexIndex_emit_face numVertices_def)
qed

lemma length_triangulate:
  "length (triangulate k qs) = 3 * sum_list (map (\<lambda>q. if q then 2 else 1) qs)"
  by (induction qs arbitrary: k) simp_all

lemma indices_expand:
  "indices (expand d) = triangulate 0 (map isQuad (faces_from (faces d) 0))"
  by (simp add: expand_def while_faces_fold fold_faces_indices init_state_def)

lemma length_corner_position [simp]: "length (corner_position d vi) = 3"
  by (simp add: corner_position_def Let_def)

lemma length_corner_normal [simp]: "length (corner_normal d b ni) = 3"
  by (simp add: corner_normal_def Let_def)

lemma length_corner_uv [simp]: "length (corner_uv d b ui) = 2"
  by (simp add: corner_uv_def Let_def)

lemma length_concat_fixed:
  "(\<And>x. length (f x) = c) \<Longrightarrow> length (concat (map f xs)) = c * length xs"
  by (induction xs) simp_all

lemma emit_face_lengths:
  "length (positions (emit_face d f s)) = length (positions s) + 3 * numVertices (isQuad f)"
  "length (normalData (emit_face d f s)) = length (normalData s) + 3 * numVertices (isQuad f)"
  "length (uvData (emit_face d f s)) = length (uvData s) + 2 * numVertices (isQuad f)"
  by (simp_all add: emit_face_eq length_concat_fixed)

lemma fold_faces_lengths:
  "length (positions (fold (\<lambda>f s. (emit_face d f s)\<lparr> cursor := next_i f \<rparr>) fs s)) =
     length (positions s) + 3 * num_corners fs
   \<and> length (normalData (fold (\<lambda>f s. (emit_face d f s)\<lparr> cursor := next_i f \<rparr>) fs s)) =
     length (normalData s) + 3 * num_corners fs
   \<and> length (uvData (fold (\<lambda>f s. (emit_face d f s)\<lparr> cursor := next_i f \<rparr>) fs s)) =
     length (uvData s) + 2 * num_corners fs
   \<and> vertexIndex (fold (\<lambda>f s. (emit_face d f s)\<lparr> cursor := next_i f \<rparr>) fs s) =
     vertexIndex s + num_corners fs"
proof (induction fs arbitrary: s)
  case Nil
  show ?case by (simp add: num_corners_def)
next
  case (Cons f fs)
  show ?case
    by (simp add: Cons.IH num_corners_def emit_face_lengths vertexIndex_emit_face)
qed

lemma lengths_expand:
  "length (positions (expand d)) = 3 * num_corners (faces_from (faces d) 0)"
  "length (normalData (expand d)) = 3 * num_corners (faces_from (faces d) 0)"
  "length (uvData (expand d)) = 2 * num_corners (faces_from (faces d) 0)"
  "vertexIndex (expand d) = num_corners (faces_from (faces d) 0)"
  by (simp_all add: expand_def while_faces_fold fold_faces_lengths init_state_def)

lemma length_indices_expand:
  "length (indices (expand d)) = 3 * sum_list (map num_triangles (faces_from (faces d) 0))"
proof -
  have "(\<lambda>q. if q then 2 else 1) \<circ> isQuad = num_triangles"
    by (auto simp: num_triangles_def)
  then show ?thesis by (simp add: indices_expand length_triangulate)
qed

lemma triangulate_bound:
  "i \<in> set (triangulate k qs) \<Longrightarrow> i < k + length (triangulate k qs)"
proof (induction qs arbitrary: k)
  case Nil
  then show ?case by simp
next
  case (Cons q qs)
  show ?case
  proof (cases "i \<in> set (triangulate (k + (if q then 4 else 3)) qs)")
    case True
    then have "i < k + (if q then 4 else 3) + length (triangulate (k + (if q then 4 else 3)) qs)"
      by (rule Cons.IH)
    then show ?thesis by (simp split: if_splits)
  next
    case False
    with Cons.prems show ?thesis by (auto split: if_splits)
  qed
qed

lemma indices_expand_bound: "i \<in> set (indices (expand d)) \<Longrightarrow> i < length (indices (expand d))"
  using triangulate_bound [of i 0] by (simp add: indices_expand)

lemma map_unat_of_nat16:
  "(\<And>i. i \<in> set xs \<Longrightarrow> i < 65536) \<Longrightarrow> map unat (map of_nat xs :: 16 word list) = xs"
  by (induction xs) (simp_all add: unat_of_nat)

lemma indexBuffer_convert:
  "indexBuffer (convertThreeJsJsonToGltf d fileName) =
     (if length (indices (expand d)) < 65536 then Uint16Array (map of_nat (indices (expand d)))
      else Uint32Array (map of_nat (indices (expand d))))"
  by (simp add: convertThreeJsJsonToGltf_def Let_def)

lemma positionBuffer_convert:
  "positionBuffer (convertThreeJsJsonToGltf d fileName) = map fround (positions (expand d))"
  by (simp add: convertThreeJsJsonToGltf_def Let_def)

lemma nth_concat_replicate:
  "j < n * length xs \<Longrightarrow> concat (replicate n xs) ! j = xs ! (j mod length xs)"
proof (induction n arbitrary: j)
  case 0
  then show ?case by simp
next
  case (Suc n)
  show ?case
  proof (cases "j < length xs")
    case True
    then show ?thesis by (simp add: nth_append)
  next
    case False
    then have "j - length xs < n * length xs" using Suc.prems by simp
    then have "concat (replicate n xs) ! (j - length xs) = xs ! ((j - length xs) mod length xs)"
      by (rule Suc.IH)
    with False show ?thesis by (simp add: nth_append le_mod_geq)
  qed
qed

lemma length_quad_stream [simp]: "length (quad_stream n) = 5 * n"
  by (simp add: quad_stream_def length_concat sum_list_replicate)

lemma quad_stream_flag: "k < n \<Longrightarrow> js_at (quad_stream n) (5 * k) = Some 1"
proof -
  assume "k < n"
  then have "5 * k < n * length [1, 0, 1, 2, 3 :: int]" by simp
  then have "concat (replicate n [1, 0, 1, 2, 3 :: int]) ! (5 * k) = [1, 0, 1, 2, 3] ! ((5 * k) mod length [1, 0, 1, 2, 3 :: int])"
    by (rule nth_concat_replicate)
  with \<open>k < n\<close> show ?thesis by (simp add: js_at_def quad_stream_def [symmetric])
qed

lemma decode_quad_flag:
  "js_at fs i = Some 1 \<Longrightarrow> isQuad (decode_face fs i) \<and> next_i (decode_face fs i) = i + 5"
  by (simp add: decode_face_def Let_def flag_def skip_if_def numVertices_def)

lemma quad_stream_faces:
  "k \<le> n \<Longrightarrow> map isQuad (faces_from (quad_stream n) (5 * k)) = replicate (n - k) True"
proof (induction "n - k" arbitrary: k)
  case 0
  then show ?case by (simp add: faces_from_done)
next
  case (Suc m)
  then have k: "k < n" and m: "m = n - Suc k" by simp_all
  have f: "isQuad (decode_face (quad_stream n) (5 * k))"
      "next_i (decode_face (quad_stream n) (5 * k)) = 5 * Suc k"
    using decode_quad_flag [OF quad_stream_flag [OF k]] by simp_all
  have "map isQuad (faces_from (quad_stream n) (5 * Suc k)) = replicate (n - Suc k) True"
    using Suc.hyps(1) [OF m] k by simp
  with k f Suc.hyps(2) show ?case
    by (simp add: faces_from_step [of "5 * k"] del: mult_Suc_right)
       (metis Suc_diff_Suc replicate_Suc)
qed

lemma quad_stream_counts:
  "sum_list (map num_triangles (faces_from (quad_stream n) 0)) = 2 * n"
  "num_corners (faces_from (quad_stream n) 0) = 4 * n"
proof -
  have q: "map isQuad (faces_from (quad_stream n) 0) = replicate n True"
    using quad_stream_faces [of 0 n] by simp
  have "map num_triangles (faces_from (quad_stream n) 0) =
      map (\<lambda>q. if q then 2 else 1) (map isQuad (faces_from (quad_stream n) 0))"
    by (simp add: num_triangles_def)
  then show "sum_list (map num_triangles (faces_from (quad_stream n) 0)) = 2 * n"
    unfolding q by (simp add: sum_list_replicate)
  have "map (\<lambda>f. numVertices (isQuad f)) (faces_from (quad_stream n) 0) =
      map numVertices (map isQuad (faces_from (quad_stream n) 0))"
    by simp
  then show "num_corners (faces_from (quad_stream n) 0) = 4 * n"
    unfolding q num_corners_def by (simp add: sum_list_replicate numVertices_def)
qed

lemmas faces_from_eval = faces_from_step faces_from_done num_triangles_def num_corners_def

section \<open>Properties of the bounding box\<close>

text \<open>On a list of whole triples the loop folds \<open>Math.min\<close> and \<open>Math.max\<close> over
  the values of each axis; without NaN the fold answers the least and the greatest
  value, and a single NaN makes it NaN.\<close>

lemma axis_values_Cons3:
  "k < 3 \<Longrightarrow> axis_values k (x # y # z # rest) = [x, y, z] ! k # axis_values k rest"
proof -
  assume k: "k < 3"
  have "[0..<Suc (length rest div 3)] = 0 # map Suc [0..<length rest div 3]"
    by (simp add: upt_conv_Cons map_Suc_upt del: upt_Suc)
  moreover have "(x # y # z # rest) ! (3 * Suc c + k) = rest ! (3 * c + k)" for c
    by simp
  moreover have "(x # y # z # rest) ! k = [x, y, z] ! k"
  proof -
    have "k = 0 \<or> k = 1 \<or> k = 2" using k by arith
    then show ?thesis by (elim disjE) simp_all
  qed
  ultimately show ?thesis
    by (simp add: axis_values_def o_def del: upt_Suc mult_Suc_right)
qed

lemma bounds_loop_fold:
  "length ps mod 3 = 0 \<Longrightarrow>
     bounds_loop ps b =
       \<lparr> minX = fold (\<lambda>v m. math_min m v) (axis_values 0 ps) (minX b),
         minY = fold (\<lambda>v m. math_min m v) (axis_values 1 ps) (minY b),
         minZ = fold (\<lambda>v m. math_min m v) (axis_values 2 ps) (minZ b),
         maxX = fold (\<lambda>v m. math_max m v) (axis_values 0 ps) (maxX b),
         maxY = fold (\<lambda>v m. math_max m v) (axis_values 1 ps) (maxY b),
         maxZ = fold (\<lambda>v m. math_max m v) (axis_values 2 ps) (maxZ b) \<rparr>"
proof (induction ps b rule: bounds_loop.induct)
  case (1 b)
  show ?case by (simp add: axis_values_def)
next
  case (2 x b)
  then show ?case by simp
next
  case (3 x y b)
  then show ?case by simp
next
  case (4 x y z rest b)
  then have "length rest mod 3 = 0" by (simp add: mod_Suc split: if_splits)
  then show ?case
    using "4.IH" by (simp add: axis_values_Cons3 bbox_add_def)
qed

lemma js_le_refl: "a \<noteq> NaN \<Longrightarrow> js_le a a"
  by (cases a) (simp_all add: js_le_def)

lemma js_le_trans: "js_le a b \<Longrightarrow> js_le b c \<Longrightarrow> js_le a c"
  by (cases a; cases b; cases c) (simp_all add: js_le_def)

lemma js_le_total: "a \<noteq> NaN \<Longrightarrow> b \<noteq> NaN \<Longrightarrow> js_le a b \<or> js_le b a"
  by (cases a; cases b) (auto simp: js_le_def)

lemma math_min_NaN [simp]: "math_min m NaN = NaN" "math_min NaN x = NaN"
  by (simp_all add: math_min_def)

lemma math_max_NaN [simp]: "math_max m NaN = NaN" "math_max NaN x = NaN"
  by (simp_all add: math_max_def)

lemma fold_min_NaN: "fold (\<lambda>v m. math_min m v) xs NaN = NaN"
  by (induction xs) simp_all

lemma fold_max_NaN: "fold (\<lambda>v m. math_max m v) xs NaN = NaN"
  by (induction xs) simp_all

lemma fold_min_has_NaN: "NaN \<in> set xs \<Longrightarrow> fold (\<lambda>v m. math_min m v) xs m = NaN"
  by (induction xs arbitrary: m) (auto simp: fold_min_NaN)

lemma fold_max_has_NaN: "NaN \<in> set xs \<Longrightarrow> fold (\<lambda>v m. math_max m v) xs m = NaN"
  by (induction xs arbitrary: m) (auto simp: fold_max_NaN)

lemma fold_min_spec:
  "NaN \<notin> set xs \<Longrightarrow> m \<noteq> NaN \<Longrightarrow>
     (fold (\<lambda>v m. math_min m v) xs m = m \<or> fold (\<lambda>v m. math_min m v) xs m \<in> set xs)
     \<and> js_le (fold (\<lambda>v m. math_min m v) xs m) m
     \<and> (\<forall>x\<in>set xs. js_le (fold (\<lambda>v m. math_min m v) xs m) x)"
proof (induction xs arbitrary: m)
  case Nil
  then show ?case by (simp add: js_le_refl)
next
  case (Cons x xs)
  let ?m' = "math_min m x"
  have x: "x \<noteq> NaN" and xs: "NaN \<notin> set xs" using Cons.prems(1) by auto
  have m': "?m' \<noteq> NaN" "?m' = m \<or> ?m' = x" "js_le ?m' m" "js_le ?m' x"
    using x Cons.prems(2) js_le_total [of m x] js_le_refl
    by (auto simp: math_min_def)
  note ih = Cons.IH [OF xs m'(1)]
  show ?case
    using ih m'(2,3,4) by (auto intro: js_le_trans)
qed

lemma fold_max_spec:
  "NaN \<notin> set xs \<Longrightarrow> m \<noteq> NaN \<Longrightarrow>
     (fold (\<lambda>v m. math_max m v) xs m = m \<or> fold (\<lambda>v m. math_max m v) xs m \<in> set xs)
     \<and> js_le m (fold (\<lambda>v m. math_max m v) xs m)
     \<and> (\<forall>x\<in>set xs. js_le x (fold (\<lambda>v m. math_max m v) xs m))"
proof (induction xs arbitrary: m)
  case Nil
  then show ?case by (simp add: js_le_refl)
next
  case (Cons x xs)
  let ?m' = "math_max m x"
  have x: "x \<noteq> NaN" and xs: "NaN \<notin> set xs" using Cons.prems(1) by auto
  have m': "?m' \<noteq> NaN" "?m' = m \<or> ?m' = x" "js_le m ?m'" "js_le x ?m'"
    using x Cons.prems(2) js_le_total [of m x] js_le_refl
    by (auto simp: math_max_def)
  note ih = Cons.IH [OF xs m'(1)]
  show ?case
    using ih m'(2,3,4) by (auto intro: js_le_trans)
qed

lemma fold_min_PosInf:
  assumes "NaN \<notin> set xs" "xs \<noteq> []"
  shows "fold (\<lambda>v m. math_min m v) xs PosInf \<in> set xs
         \<and> (\<forall>x\<in>set xs. js_le (fold (\<lambda>v m. math_min m v) xs PosInf) x)"
proof -
  let ?r = "fold (\<lambda>v m. math_min m v) xs PosInf"
  note s = fold_min_spec [OF assms(1), of PosInf]
  have all: "\<forall>x\<in>set xs. js_le ?r x" using s by simp
  obtain x where x: "x \<in> set xs" using assms(2) by (cases xs) auto
  have "?r \<in> set xs"
  proof (cases "?r = PosInf")
    case True
    then have "js_le PosInf x" using all x by simp
    then have "x = PosInf" by (cases x) (simp_all add: js_le_def)
    with True x show ?thesis by simp
  next
    case False
    with s show ?thesis by simp
  qed
  with all show ?thesis by simp
qed

lemma fold_max_NegInf:
  assumes "NaN \<notin> set xs" "xs \<noteq> []"
  shows "fold (\<lambda>v m. math_max m v) xs NegInf \<in> set xs
         \<and> (\<forall>x\<in>set xs. js_le x (fold (\<lambda>v m. math_max m v) xs NegInf))"
proof -
  let ?r = "fold (\<lambda>v m. math_max m v) xs NegInf"
  note s = fold_max_spec [OF assms(1), of NegInf]
  have all: "\<forall>x\<in>set xs. js_le x ?r" using s by simp
  obtain x where x: "x \<in> set xs" using assms(2) by (cases xs) auto
  have "?r \<in> set xs"
  proof (cases "?r = NegInf")
    case True
    then have "js_le x NegInf" using all x by simp
    then have "x = NegInf" by (cases x) (simp_all add: js_le_def)
    with True x show ?thesis by simp
  next
    case False
    with s show ?thesis by simp
  qed
  with all show ?thesis by simp
qed

lemma num_corners_ge: "fs \<noteq> [] \<Longrightarrow> 3 \<le> num_corners (faces_from fs 0)"
  by (simp add: faces_from_step num_corners_def numVertices_def)

lemma bounds_convert:
  "bounds (convertThreeJsJsonToGltf d fileName) =
     \<lparr> bmin = map (\<lambda>k. fold (\<lambda>v m. math_min m v) (axis_values k (positions (expand d))) PosInf) [0, 1, 2],
       bmax = map (\<lambda>k. fold (\<lambda>v m. math_max m v) (axis_values k (positions (expand d))) NegInf) [0, 1, 2] \<rparr>"
proof -
  have "length (positions (expand d)) mod 3 = 0" by (simp add: lengths_expand)
  then show ?thesis
    by (simp add: convertThreeJsJsonToGltf_def Let_def bounds_loop_fold bbox_init_def)
qed

lemma nth_012: "k < 3 \<Longrightarrow> map f [0, 1, 2 :: nat] ! k = f k"
proof -
  assume "k < 3"
  then have "k = 0 \<or> k = 1 \<or> k = 2" by arith
  then show ?thesis by (elim disjE) simp_all
qed

lemma axis_values_nonempty:
  "faces d \<noteq> [] \<Longrightarrow> axis_values k (positions (expand d)) \<noteq> []"
  using num_corners_ge [of "faces d"] by (simp add: axis_values_def lengths_expand)

section \<open>Reads outside the arrays\<close>

lemma nth_concat_fixed:
  "(\<And>x. length (f x) = c) \<Longrightarrow> v < length xs \<Longrightarrow> k < c \<Longrightarrow>
     concat (map f xs) ! (c * v + k) = f (xs ! v) ! k"
proof (induction xs arbitrary: v)
  case Nil
  then show ?case by simp
next
  case (Cons x xs)
  show ?case
  proof (cases v)
    case 0
    with Cons.prems show ?thesis by (simp add: nth_append)
  next
    case (Suc w)
    then have w: "w < length xs" using Cons.prems(2) by simp
    have "concat (map f xs) ! (c * w + k) = f (xs ! w) ! k"
      using Cons.IH [OF Cons.prems(1) w Cons.prems(3)] .
    moreover have "c * v + k - length (f x) = c * w + k" "\<not> c * v + k < length (f x)"
      using Suc Cons.prems(1) [of x] by simp_all
    ultimately show ?thesis using Suc by (simp add: nth_append)
  qed
qed

lemma nth_face_step:
  assumes "v < numVertices (isQuad (decode_face (faces d) (cursor s)))"
  shows "k < 3 \<Longrightarrow> positions (face_step d s) ! (length (positions s) + 3 * v + k) =
           corner_position d (js_elem (vertexIndices (decode_face (faces d) (cursor s))) v) ! k"
    and "k < 3 \<Longrightarrow> normalData (face_step d s) ! (length (normalData s) + 3 * v + k) =
           corner_normal d (hasFaceVertexNormal (decode_face (faces d) (cursor s)))
             (js_elem (faceNormalIndices (decode_face (faces d) (cursor s))) v) ! k"
    and "k < 2 \<Longrightarrow> uvData (face_step d s) ! (length (uvData s) + 2 * v + k) =
           corner_uv d (hasFaceVertexUv (decode_face (faces d) (cursor s)))
             (js_elem (faceUvIndices (decode_face (faces d) (cursor s))) v) ! k"
proof -
  let ?f = "decode_face (faces d) (cursor s)"
  have v: "v < length [0..<numVertices (isQuad ?f)]" "[0..<numVertices (isQuad ?f)] ! v = v"
    using assms by simp_all
  show "k < 3 \<Longrightarrow> positions (face_step d s) ! (length (positions s) + 3 * v + k) =
           corner_position d (js_elem (vertexIndices ?f) v) ! k"
    using nth_concat_fixed [of "\<lambda>v. corner_position d (js_elem (vertexIndices ?f) v)" 3 v
        "[0..<numVertices (isQuad ?f)]" k] v
    by (simp add: face_step_def Let_def emit_face_eq nth_append add.assoc)
  show "k < 3 \<Longrightarrow> normalData (face_step d s) ! (length (normalData s) + 3 * v + k) =
           corner_normal d (hasFaceVertexNormal ?f) (js_elem (faceNormalIndices ?f) v) ! k"
    using nth_concat_fixed [of "\<lambda>v. corner_normal d (hasFaceVertexNormal ?f)
        (js_elem (faceNormalIndices ?f) v)" 3 v "[0..<numVertices (isQuad ?f)]" k] v
    by (simp add: face_step_def Let_def emit_face_eq nth_append add.assoc)
  show "k < 2 \<Longrightarrow> uvData (face_step d s) ! (length (uvData s) + 2 * v + k) =
           corner_uv d (hasFaceVertexUv ?f) (js_elem (faceUvIndices ?f) v) ! k"
    using nth_concat_fixed [of "\<lambda>v. corner_uv d (hasFaceVertexUv ?f)
        (js_elem (faceUvIndices ?f) v)" 2 v "[0..<numVertices (isQuad ?f)]" k] v
    by (simp add: face_step_def Let_def emit_face_eq nth_append add.assoc)
qed

lemma js_index_out_of_range:
  "j < 0 \<or> int (length xs) \<le> j \<Longrightarrow> js_index xs (Some j) = None"
  by (auto simp: js_index_def)

lemma corner_position_out_of_range:
  assumes "x < 0 \<or> int (length (vertices d)) \<le> 3 * x"
  shows "corner_position d (Some x) = [NaN, NaN, NaN]"
proof -
  have "js_index (vertices d) (Some (x * 3)) = None"
       "js_index (vertices d) (Some (x * 3 + 1)) = None"
       "js_index (vertices d) (Some (x * 3 + 2)) = None"
    using assms by (auto intro!: js_index_out_of_range)
  then show ?thesis
    by (simp add: corner_position_def Let_def to_num_def js_mul_def)
qed

lemma corner_normal_out_of_range:
  assumes "x < 0 \<or> int (length (normals d)) \<le> 3 * x"
  shows "corner_normal d True (Some x) = [Fin 0, Fin 0, Fin 0]"
proof -
  have "js_index (normals d) (Some (x * 3)) = None"
       "js_index (normals d) (Some (x * 3 + 1)) = None"
       "js_index (normals d) (Some (x * 3 + 2)) = None"
    using assms by (auto intro!: js_index_out_of_range)
  then show ?thesis
    by (simp add: corner_normal_def Let_def js_or_def)
qed

lemma corner_uv_out_of_range:
  assumes "x < 0 \<or> int (length (uvs0 d)) \<le> 2 * x"
  shows "corner_uv d True (Some x) = [Fin 0, Fin 0]"
proof -
  have "js_index (uvs0 d) (Some (x * 2)) = None"
       "js_index (uvs0 d) (Some (x * 2 + 1)) = None"
    using assms by (auto intro!: js_index_out_of_range)
  then show ?thesis
    by (simp add: corner_uv_def Let_def js_or_def)
qed

lemma while_faces_consumes: "length (faces d) \<le> cursor (while_faces d s)"
proof (induction d s rule: while_faces.induct)
  case (1 d s)
  show ?case
  proof (cases "cursor s < length (faces d)")
    case True
    with "1.IH" show ?thesis by (simp add: while_faces_step)
  next
    case False
    then show ?thesis by (simp add: while_faces_done)
  qed
qed

lemma expand_consumes: "length (faces d) \<le> cursor (expand d)"
  by (simp add: expand_def while_faces_consumes)

section \<open>Properties of the buffers and of the container\<close>

text \<open>Copies and writes into a buffer that is a written prefix followed by zeros keep
  that shape, which gives the packed buffer and the container as concatenations.\<close>

lemma length_le_bytes [simp]: "length (le_bytes n w) = n"
  by (simp add: le_bytes_def)

lemma length_float32_bytes [simp]: "length (float32_bytes f32bits xs) = 4 * length xs"
  by (simp add: float32_bytes_def length_concat_fixed)

lemma length_index_bytes:
  "length (index_bytes a) =
     (case a of Uint16Array ws \<Rightarrow> 2 * length ws | Uint32Array ws \<Rightarrow> 4 * length ws)"
  by (cases a) (simp_all add: index_bytes_def length_concat_fixed)

lemma pad_aligns: "(len + pad len) mod 4 = 0"
proof -
  have "len mod 4 = 0 \<or> len mod 4 = 1 \<or> len mod 4 = 2 \<or> len mod 4 = 3" by arith
  then have "(len mod 4 + pad len) mod 4 = 0"
    unfolding pad_def by (elim disjE) simp_all
  then show ?thesis by (simp add: mod_add_left_eq)
qed

lemma pad_multiple_of_4 [simp]: "pad (4 * n) = 0"
  by (simp add: pad_def)

lemma length_u32le [simp]: "length (u32le v) = 4"
  by (simp add: u32le_def)

lemma le_value_u32le: "v < 2 ^ 32 \<Longrightarrow> le_value (u32le v) = v"
proof -
  assume v: "v < 2 ^ 32"
  define a where "a = v div 256"
  define b where "b = a div 256"
  define c where "c = b div 256"
  have d: "v div 65536 = b" "v div 16777216 = c"
    by (simp_all add: a_def b_def c_def div_mult2_eq)
  have "c < 256" using v by (simp add: d(2) [symmetric])
  then have c: "c mod 256 = c" by simp
  have "le_value (u32le v) =
      v mod 256 + 256 * (a mod 256 + 256 * (b mod 256 + 256 * (c mod 256)))"
    by (simp add: le_value_def u32le_def unat_of_nat d) (simp add: a_def)
  also have "b mod 256 + 256 * (c mod 256) = b" by (simp only: c) (simp add: c_def)
  also have "a mod 256 + 256 * b = a" unfolding b_def by simp
  also have "v mod 256 + 256 * a = v" unfolding a_def by simp
  finally show ?thesis .
qed

lemma length_buf_copy [simp]: "length (buf_copy src dst off) = length dst"
  by (simp add: buf_copy_def)

lemma copy_zeros:
  "length pre = off \<Longrightarrow> length src \<le> m \<Longrightarrow>
     buf_copy src (pre @ replicate m 0) off = (pre @ src) @ replicate (m - length src) 0"
  by (simp add: buf_copy_def)

lemma write_zeros:
  "v < 2 ^ 32 \<Longrightarrow> length pre = off \<Longrightarrow> 4 \<le> m \<Longrightarrow>
     writeUInt32LE (pre @ replicate m 0) v off = Inr ((pre @ u32le v) @ replicate (m - 4) 0)"
  by (simp add: writeUInt32LE_def copy_zeros)

lemma space_padding_zeros:
  "length pre = off \<Longrightarrow> n \<le> m \<Longrightarrow>
     space_padding (pre @ replicate m 0) off n = (pre @ replicate n 0x20) @ replicate (m - n) 0"
proof (induction n)
  case 0
  then show ?case by (simp add: space_padding_def)
next
  case (Suc n)
  then have ih: "space_padding (pre @ replicate m 0) off n =
      (pre @ replicate n 0x20) @ replicate (m - n) 0" by simp
  have m: "m - n = Suc (m - Suc n)" using Suc.prems(2) by simp
  have "space_padding (pre @ replicate m 0) off (Suc n) =
      (space_padding (pre @ replicate m 0) off n)[off + n := 0x20]"
    by (simp add: space_padding_def)
  also have "\<dots> = ((pre @ replicate n 0x20) @ replicate (m - n) 0)[length (pre @ replicate n 0x20) := 0x20]"
    using Suc.prems(1) by (simp add: ih)
  also have "\<dots> = (pre @ replicate n 0x20) @ (0x20 # replicate (m - Suc n) 0)"
    unfolding m by (simp only: list_update_length replicate_Suc)
  also have "\<dots> = (pre @ replicate (Suc n) 0x20) @ replicate (m - Suc n) 0"
    by (simp add: replicate_append_same)
  finally show ?case .
qed

lemma bin_buffer_layout:
  "bin_buffer p n u i =
     p @ replicate (pad (length p)) 0 @ n @ replicate (pad (length n)) 0 @
     u @ replicate (pad (length u)) 0 @ i @ replicate (pad (length i)) 0"
proof -
  define m3 where "m3 = length i + pad (length i)"
  define m2 where "m2 = length u + pad (length u) + m3"
  define m1 where "m1 = length n + pad (length n) + m2"
  define b1 where "b1 = p @ replicate (pad (length p)) 0"
  define b2 where "b2 = (b1 @ n) @ replicate (pad (length n)) 0"
  define b3 where "b3 = (b2 @ u) @ replicate (pad (length u)) 0"
  have total: "length p + pad (length p) + length n + pad (length n) + length u
      + pad (length u) + length i + pad (length i) = length p + (pad (length p) + m1)"
    by (simp add: m1_def m2_def m3_def)
  have c1: "buf_copy p (replicate (length p + (pad (length p) + m1)) 0) 0 = b1 @ replicate m1 0"
    using copy_zeros [of "[]" 0 p "length p + (pad (length p) + m1)"]
    by (simp add: b1_def replicate_add)
  have c2: "buf_copy n (b1 @ replicate m1 0) (length p + pad (length p)) = b2 @ replicate m2 0"
    using copy_zeros [of b1 "length p + pad (length p)" n m1]
    by (simp add: b1_def b2_def m1_def replicate_add)
  have c3: "buf_copy u (b2 @ replicate m2 0)
      (length p + pad (length p) + (length n + pad (length n))) = b3 @ replicate m3 0"
    using copy_zeros [of b2 "length p + pad (length p) + (length n + pad (length n))" u m2]
    by (simp add: b1_def b2_def b3_def m2_def replicate_add)
  have c4: "buf_copy i (b3 @ replicate m3 0)
      (length p + pad (length p) + (length n + pad (length n)) + (length u + pad (length u))) =
      (b3 @ i) @ replicate (pad (length i)) 0"
    using copy_zeros [of b3 "length p + pad (length p) + (length n + pad (length n))
        + (length u + pad (length u))" i m3]
    by (simp add: b1_def b2_def b3_def m3_def)
  have "bin_buffer p n u i = (b3 @ i) @ replicate (pad (length i)) 0"
    unfolding bin_buffer_def Let_def total by (simp only: add_0 c1 c2 c3 c4)
  then show ?thesis by (simp add: b1_def b2_def b3_def)
qed

lemma length_bin_buffer:
  "length (bin_buffer p n u i) =
     length p + pad (length p) + length n + pad (length n) + length u + pad (length u)
       + length i + pad (length i)"
  by (simp add: bin_buffer_layout)

lemma bind_err_simps [simp]: "bind_err (Inr x) f = f x" "bind_err (Inl e) f = Inl e"
  by (simp_all add: bind_err_def)

lemma write_glb_eq:
  assumes bin: "length bin = bufferLength"
      and fits: "12 + 8 + length j + p + 8 + bufferLength < 2 ^ 32"
  shows "write_glb j p bin bufferLength =
     Inr (u32le 0x46546C67 @ u32le 2 @ u32le (12 + 8 + length j + p + 8 + bufferLength) @
          u32le (length j + p) @ u32le 0x4E4F534A @ j @ replicate p 0x20 @
          u32le bufferLength @ u32le 0x004E4942 @ bin)"
proof -
  define G where "G = 12 + 8 + length j + p + 8 + bufferLength"
  define h1 where "h1 = u32le 0x46546C67"
  define h2 where "h2 = h1 @ u32le 2"
  define h3 where "h3 = h2 @ u32le G"
  define h4 where "h4 = h3 @ u32le (length j + p)"
  define h5 where "h5 = h4 @ u32le 0x4E4F534A"
  define h6 where "h6 = h5 @ j"
  define h7 where "h7 = h6 @ replicate p 0x20"
  define h8 where "h8 = h7 @ u32le bufferLength"
  define h9 where "h9 = h8 @ u32le 0x004E4942"
  have G: "G < 2 ^ 32" using fits by (simp add: G_def)
  have lens: "length h1 = 4" "length h2 = 8" "length h3 = 12" "length h4 = 16" "length h5 = 20"
      "length h6 = 20 + length j" "length h7 = 20 + length j + p"
      "length h8 = 20 + length j + p + 4" "length h9 = 20 + length j + p + 4 + 4"
    by (simp_all add: h1_def h2_def h3_def h4_def h5_def h6_def h7_def h8_def h9_def)
  have w1: "writeUInt32LE (replicate G 0) 0x46546C67 0 = Inr (h1 @ replicate (G - 4) 0)"
    using write_zeros [of "0x46546C67" "[]" 0 G] by (simp add: h1_def G_def)
  have w2: "writeUInt32LE (h1 @ replicate (G - 4) 0) 2 4 = Inr (h2 @ replicate (G - 8) 0)"
    using write_zeros [of 2 h1 4 "G - 4"] lens by (simp add: h2_def G_def)
  have w3: "writeUInt32LE (h2 @ replicate (G - 8) 0) G 8 = Inr (h3 @ replicate (G - 12) 0)"
    using write_zeros [of G h2 8 "G - 8"] lens G by (simp add: h3_def) (simp add: G_def)
  have w4: "writeUInt32LE (h3 @ replicate (G - 12) 0) (length j + p) 12 =
      Inr (h4 @ replicate (G - 16) 0)"
    using write_zeros [of "length j + p" h3 12 "G - 12"] lens G
    by (simp add: h4_def) (simp add: G_def)
  have w5: "writeUInt32LE (h4 @ replicate (G - 16) 0) 0x4E4F534A 16 =
      Inr (h5 @ replicate (G - 20) 0)"
    using write_zeros [of "0x4E4F534A" h4 16 "G - 16"] lens
    by (simp add: h5_def) (simp add: G_def)
  have c6: "buf_copy j (h5 @ replicate (G - 20) 0) 20 = h6 @ replicate (G - 20 - length j) 0"
    using copy_zeros [of h5 20 j "G - 20"] lens by (simp add: h6_def) (simp add: G_def)
  have p7: "space_padding (h6 @ replicate (G - 20 - length j) 0) (20 + length j) p =
      h7 @ replicate (G - 20 - length j - p) 0"
    using space_padding_zeros [of h6 "20 + length j" p "G - 20 - length j"] lens
    by (simp add: h7_def) (simp add: G_def)
  have w8: "writeUInt32LE (h7 @ replicate (G - 20 - length j - p) 0) bufferLength
      (20 + length j + p) = Inr (h8 @ replicate (G - 20 - length j - p - 4) 0)"
    using write_zeros [of bufferLength h7 "20 + length j + p" "G - 20 - length j - p"] lens G
    by (simp add: h8_def) (simp add: G_def)
  have w9: "writeUInt32LE (h8 @ replicate (G - 20 - length j - p - 4) 0) 0x004E4942
      (20 + length j + p + 4) = Inr (h9 @ replicate (G - 20 - length j - p - 4 - 4) 0)"
    using write_zeros [of "0x004E4942" h8 "20 + length j + p + 4" "G - 20 - length j - p - 4"]
      lens by (simp add: h9_def) (simp add: G_def)
  have c10: "buf_copy bin (h9 @ replicate (G - 20 - length j - p - 4 - 4) 0)
      (20 + length j + p + 8) = h9 @ bin"
    using copy_zeros [of h9 "20 + length j + p + 8" bin "G - 20 - length j - p - 4 - 4"] lens bin
    by (simp add: G_def)
  have "write_glb j p bin bufferLength = Inr (h9 @ bin)"
    unfolding write_glb_def Let_def G_def [symmetric]
    by (simp only: w1 w2 w3 w4 w5 c6 p7 w8 w9 c10 bind_err_simps)
  then show ?thesis
    by (simp add: h1_def h2_def h3_def h4_def h5_def h6_def h7_def h8_def h9_def G_def)
qed

lemma write_glb_too_long:
  assumes "\<not> 12 + 8 + length j + p + 8 + bufferLength < 2 ^ 32"
  shows "write_glb j p bin bufferLength = Inl RangeError"
proof -
  define G where "G = 12 + 8 + length j + p + 8 + bufferLength"
  have G: "\<not> G < 2 ^ 32" "4 \<le> G" "4 \<le> G - 4"
    using assms by (simp_all add: G_def)
  have w1: "writeUInt32LE (replicate G 0) 0x46546C67 0 = Inr (u32le 0x46546C67 @ replicate (G - 4) 0)"
    using write_zeros [of "0x46546C67" "[]" 0 G] G by simp
  have w2: "writeUInt32LE (u32le 0x46546C67 @ replicate (G - 4) 0) 2 4 =
      Inr ((u32le 0x46546C67 @ u32le 2) @ replicate (G - 4 - 4) 0)"
    using write_zeros [of 2 "u32le 0x46546C67" 4 "G - 4"] G by simp
  have w3: "writeUInt32LE buf G 8 = Inl RangeError" for buf
    using G by (simp add: writeUInt32LE_def)
  show ?thesis
    unfolding write_glb_def Let_def G_def [symmetric]
    by (simp only: w1 w2 w3 bind_err_simps)
qed

lemma createGlb_eq:
  "createGlb stringify f32bits data =
     (if container_length stringify f32bits data < 2 ^ 32
      then Inr (container stringify f32bits data) else Inl RangeError)"
proof -
  let ?j = "scene_bytes stringify f32bits data"
  let ?bin = "packed_buffer f32bits data"
  have c: "createGlb stringify f32bits data = write_glb ?j (pad (length ?j)) ?bin (length ?bin)"
    by (simp add: createGlb_def Let_def scene_bytes_def packed_buffer_def pad_def
        length_bin_buffer)
  have l: "12 + 8 + length ?j + pad (length ?j) + 8 + length ?bin =
      container_length stringify f32bits data"
    by (simp add: container_length_def)
  show ?thesis
  proof (cases "container_length stringify f32bits data < 2 ^ 32")
    case True
    have "12 + 8 + length ?j + pad (length ?j) + 8 + length ?bin < 2 ^ 32"
      unfolding l by (rule True)
    then have "write_glb ?j (pad (length ?j)) ?bin (length ?bin) =
        Inr (u32le 0x46546C67 @ u32le 2 @
             u32le (12 + 8 + length ?j + pad (length ?j) + 8 + length ?bin) @
             u32le (length ?j + pad (length ?j)) @ u32le 0x4E4F534A @ ?j @
             replicate (pad (length ?j)) 0x20 @
             u32le (length ?bin) @ u32le 0x004E4942 @ ?bin)"
      by (rule write_glb_eq [OF refl])
    then show ?thesis using True unfolding c l by (simp add: container_def)
  next
    case False
    have "\<not> 12 + 8 + length ?j + pad (length ?j) + 8 + length ?bin < 2 ^ 32"
      unfolding l by (rule False)
    then have "write_glb ?j (pad (length ?j)) ?bin (length ?bin) = Inl RangeError"
      by (rule write_glb_too_long)
    then show ?thesis using False unfolding c by simp
  qed
qed

lemma length_container:
  "length (container stringify f32bits data) = container_length stringify f32bits data"
  by (simp add: container_def container_length_def)

lemma demo_triangle_lengths:
  "length (positionBuffer (convertThreeJsJsonToGltf
       \<lparr> scale = Some (Fin 1),
         vertices = [Fin 0, Fin 0, Fin 0, Fin 1, Fin 0, Fin 0, Fin 1, Fin 1, Fin 0],
         normals = [], uvs = [], faces = [0, 0, 1, 2], materials = [] \<rparr> ''t.js'')) = 9"
  "length (normalBuffer (convertThreeJsJsonToGltf
       \<lparr> scale = Some (Fin 1),
         vertices = [Fin 0, Fin 0, Fin 0, Fin 1, Fin 0, Fin 0, Fin 1, Fin 1, Fin 0],
         normals = [], uvs = [], faces = [0, 0, 1, 2], materials = [] \<rparr> ''t.js'')) = 9"
  "length (uvBuffer (convertThreeJsJsonToGltf
       \<lparr> scale = Some (Fin 1),
         vertices = [Fin 0, Fin 0, Fin 0, Fin 1, Fin 0, Fin 0, Fin 1, Fin 1, Fin 0],
         normals = [], uvs = [], faces = [0, 0, 1, 2], materials = [] \<rparr> ''t.js'')) = 6"
  "indexBuffer (convertThreeJsJsonToGltf
       \<lparr> scale = Some (Fin 1),
         vertices = [Fin 0, Fin 0, Fin 0, Fin 1, Fin 0, Fin 0, Fin 1, Fin 1, Fin 0],
         normals = [], uvs = [], faces = [0, 0, 1, 2], materials = [] \<rparr> ''t.js'')
     = Uint16Array [0, 1, 2]"
  by (simp_all add: convertThreeJsJsonToGltf_def expand_eval)

lemma vertexIndices_decode:
  "v < numVertices (isQuad (decode_face fs i)) \<Longrightarrow>
     js_elem (vertexIndices (decode_face fs i)) v = js_at fs (i + 1 + v)"
  by (simp add: decode_face_def Let_def read_indices_def js_elem_def)

lemma corner_position_undefined: "corner_position d None = [NaN, NaN, NaN]"
  by (simp add: corner_position_def js_index_def to_num_def js_mul_def)

lemma convert_file_eq:
  "parse content = Some d \<Longrightarrow>
     convert_file parse stringify f32bits file content =
       (if container_length stringify f32bits (convertThreeJsJsonToGltf d file) < 2 ^ 32
        then Inr (container stringify f32bits (convertThreeJsJsonToGltf d file))
        else Inl RangeError)"
  by (simp add: convert_file_def createGlb_eq)

lemma vertexIndex_face_step:
  "vertexIndex (face_step d s) =
     vertexIndex s + numVertices (isQuad (decode_face (faces d) (cursor s)))"
  by (simp add: face_step_def Let_def vertexIndex_emit_face)

lemma length_positions_face_step:
  "length (positions (face_step d s)) =
     length (positions s) + 3 * numVertices (isQuad (decode_face (faces d) (cursor s)))"
  by (simp add: face_step_def Let_def emit_face_lengths)

section \<open>Properties of the colour resolution\<close>

lemma includes_prefix_mono: "str_includes s k2 \<Longrightarrow> prefix k1 k2 \<Longrightarrow> str_includes s k1"
proof (induction s)
  case Nil
  then show ?case by simp
next
  case (Cons c cs)
  then show ?case by (auto dest: prefix_order.trans)
qed

lemma material_scan_find:
  "material_scan ms b =
     (case List.find explicit_color (List.map_filter colorDiffuse ms) of
        None \<Rightarrow> b
      | Some c \<Rightarrow> [fst c, fst (snd c), snd (snd c), 1])"
  by (induction ms b rule: material_scan.induct)
     (auto simp: List.map_filter_simps split: option.splits)

lemma keyword_scan_find:
  "keyword_scan lowerName tbl b =
     (case List.find (\<lambda>kc. str_includes lowerName (fst kc)) tbl of
        None \<Rightarrow> b
      | Some kc \<Rightarrow> snd kc)"
  by (induction lowerName tbl b rule: keyword_scan.induct) auto

lemma colorMap_alpha: "kc \<in> set colorMap \<Longrightarrow> length (snd kc) = 4 \<and> snd kc ! 3 = 1"
  by (auto simp: colorMap_def)

lemma baseColor_convert [simp]:
  "baseColor (convertThreeJsJsonToGltf d fileName) = resolve_color d fileName"
  by (simp add: convertThreeJsJsonToGltf_def Let_def)

lemma find_Some_set: "List.find P xs = Some x \<Longrightarrow> x \<in> set xs"
  by (auto simp: find_Some_iff)

text \<open>The difference of the binary64 values of 0.1 and 0.15 is rounded, and its
  magnitude is below the binary64 value of 0.05: such a colour is near-gray for the
  test, as it is for the code.\<close>

lemma near_gray_binary64:
  "\<not> explicit_color (3602879701896397 / 36028797018963968,
                       5404319552844595 / 36028797018963968,
                       5404319552844595 / 36028797018963968)"
proof -
  have "round64 (- (900719925474099 / 18014398509481984)) =
      Fin (- (900719925474099 / 18014398509481984))"
    unfolding round64_def
    by (subst round_float_eval [of "- 5"]) (simp_all add: two_pow_def round_even_def)
  then show ?thesis
    by (simp add: explicit_color_def js_lt_def js_le_def js_abs_def js_sub_def lit_0_05)
qed


section \<open>The claims\<close>

subsection \<open>C1: which colour wins\<close>

text \<open>
  C1, as the code has it. The base colour is always a list of four numbers whose last
  (alpha) is 1, and it is chosen without blending in this order: the first diffuse
  colour among the materials that is neither near-white (all channels above 0.9) nor
  near-gray (\<open>|c0 - c1| < 0.05\<close> and \<open>|c1 - c2| < 0.05\<close>), both tests in binary64
  arithmetic, taken verbatim; if no
  material has one, the constant of the first keyword of the table, in table order,
  that the lowercased file name includes; if no keyword matches either, the brown
  default.
\<close>

theorem C1_material_overrides_keyword:
  "baseColor (convertThreeJsJsonToGltf d fileName) =
     (case List.find explicit_color (List.map_filter colorDiffuse (materials d)) of
        Some c \<Rightarrow> [fst c, fst (snd c), snd (snd c), 1]
      | None \<Rightarrow>
          (case List.find (\<lambda>kc. str_includes (toLowerCase fileName) (fst kc)) colorMap of
             Some kc \<Rightarrow> snd kc
           | None \<Rightarrow> defaultColor))
   \<and> length (baseColor (convertThreeJsJsonToGltf d fileName)) = 4
   \<and> baseColor (convertThreeJsJsonToGltf d fileName) ! 3 = 1"
proof -
  let ?m = "List.find explicit_color (List.map_filter colorDiffuse (materials d))"
  let ?k = "List.find (\<lambda>kc. str_includes (toLowerCase fileName) (fst kc)) colorMap"
  have eq: "baseColor (convertThreeJsJsonToGltf d fileName) =
     (case ?m of Some c \<Rightarrow> [fst c, fst (snd c), snd (snd c), 1]
      | None \<Rightarrow> (case ?k of Some kc \<Rightarrow> snd kc | None \<Rightarrow> defaultColor))"
    by (cases "materials d")
       (simp_all add: resolve_color_def Let_def
          material_scan_find keyword_scan_find List.map_filter_simps split: option.splits)
  have alpha: "length (snd kc) = 4 \<and> snd kc ! 3 = 1" if "?k = Some kc" for kc
    using colorMap_alpha [OF find_Some_set [OF that]] .
  show ?thesis
    unfolding eq using alpha by (auto simp: defaultColor_def split: option.splits)
qed

text \<open>The claim as stated gives the keyword precedence over the materials. It fails
  for a file named \<open>blue.js\<close> whose only material is pure red: the name includes
  the keyword, and the result is the material's red.\<close>

theorem C1_counterexample:
  "str_includes (toLowerCase ''blue.js'') ''blue'' \<and>
   baseColor (convertThreeJsJsonToGltf
      \<lparr> scale = None, vertices = [], normals = [], uvs = [], faces = [],
        materials = [\<lparr> colorDiffuse = Some (1, 0, 0) \<rparr>] \<rparr> ''blue.js'') = [1, 0, 0, 1]"
  by (simp add: color_eval)

text \<open>The example of the specification: with a pure white material, which the
  material loop skips, a name containing \<open>blue\<close> gets the keyword's colour. So does
  a material at the binary64 values of 0.1, 0.15, 0.15, which the loop skips as
  near-gray.\<close>

theorem C1_witness:
  "baseColor (convertThreeJsJsonToGltf
      \<lparr> scale = None, vertices = [], normals = [], uvs = [], faces = [],
        materials = [\<lparr> colorDiffuse = Some (1, 1, 1) \<rparr>] \<rparr> ''Blue_Chair.js'') = [0.2, 0.4, 0.7, 1]
   \<and> baseColor (convertThreeJsJsonToGltf
      \<lparr> scale = None, vertices = [], normals = [], uvs = [], faces = [],
        materials = [\<lparr> colorDiffuse = Some (3602879701896397 / 36028797018963968,
                                               5404319552844595 / 36028797018963968,
                                               5404319552844595 / 36028797018963968) \<rparr>] \<rparr>
      ''blue.js'') = [0.2, 0.4, 0.7, 1]"
proof -
  have a: "baseColor (convertThreeJsJsonToGltf
      \<lparr> scale = None, vertices = [], normals = [], uvs = [], faces = [],
        materials = [\<lparr> colorDiffuse = Some (1, 1, 1) \<rparr>] \<rparr> ''Blue_Chair.js'') = [0.2, 0.4, 0.7, 1]"
    using C1_material_overrides_keyword [of
      "\<lparr> scale = None, vertices = [], normals = [], uvs = [], faces = [],
        materials = [\<lparr> colorDiffuse = Some (1, 1, 1) \<rparr>] \<rparr>" "''Blue_Chair.js''"]
    by (simp add: color_eval)
  have b: "baseColor (convertThreeJsJsonToGltf
      \<lparr> scale = None, vertices = [], normals = [], uvs = [], faces = [],
        materials = [\<lparr> colorDiffuse = Some (3602879701896397 / 36028797018963968,
                                               5404319552844595 / 36028797018963968,
                                               5404319552844595 / 36028797018963968) \<rparr>] \<rparr>
      ''blue.js'') = [0.2, 0.4, 0.7, 1]"
    using C1_material_overrides_keyword [of
      "\<lparr> scale = None, vertices = [], normals = [], uvs = [], faces = [],
        materials = [\<lparr> colorDiffuse = Some (3602879701896397 / 36028797018963968,
                                               5404319552844595 / 36028797018963968,
                                               5404319552844595 / 36028797018963968) \<rparr>] \<rparr>"
      "''blue.js''"] near_gray_binary64
    by (simp add: toLowerCase_def lower_char_def colorMap_def List.map_filter_simps)
  show ?thesis using a b by (rule conjI)
qed

subsection \<open>C2: the keyword whiteoak\<close>

text \<open>
  C2. A file name containing \<open>whiteoak\<close> is claimed to get the whiteoak constant
  (0.8, 0.7, 0.5). The table is scanned in the order it is written, in which
  \<open>white\<close> comes first and \<open>oak\<close> before \<open>whiteoak\<close>: for the document without
  materials and the name \<open>whiteoak.js\<close> the code answers the constant of \<open>white\<close>.
\<close>

theorem C2_whiteoak_gets_white:
  "baseColor (convertThreeJsJsonToGltf
      \<lparr> scale = None, vertices = [], normals = [], uvs = [], faces = [], materials = [] \<rparr>
      ''whiteoak.js'') = [0.95, 0.95, 0.95, 1.0]"
  by (simp add: color_eval)

text \<open>Whatever the file name, the scan of the table never answers the whiteoak
  constant: a name that includes \<open>whiteoak\<close> includes \<open>white\<close>.\<close>

lemma whiteoak_entry_unreachable:
  "keyword_scan (toLowerCase fileName) colorMap defaultColor \<noteq> [0.8, 0.7, 0.5, 1.0]"
proof -
  have "str_includes s ''whiteoak'' \<Longrightarrow> str_includes s ''white''" for s
    by (erule includes_prefix_mono) simp
  then show ?thesis
    by (auto simp: colorMap_def defaultColor_def)
qed

subsection \<open>C3: a stream that ends inside a record\<close>

text \<open>
  C3, as the code has it. No error is raised for a face stream that ends inside a
  record. A vertex index that lies past the end of the stream reads \<open>undefined\<close> and
  the corner gets NaN for its three position components. For a document that parses,
  the container is produced and written under the output name whenever its length is
  below \<open>2^32\<close>, and a container of \<open>2^32\<close> bytes or more (a RangeError of
  \<open>writeUInt32LE\<close>) is the only failure.
\<close>

theorem C3_truncated_stream_converts:
  "(v < numVertices (isQuad (decode_face (faces d) (cursor s))) \<and> k < 3
      \<and> length (faces d) \<le> cursor s + 1 + v
      \<longrightarrow> positions (face_step d s) ! (length (positions s) + 3 * v + k) = NaN)
   \<and> (parse content = Some d
      \<and> container_length stringify f32bits (convertThreeJsJsonToGltf d file) < 2 ^ 32
      \<longrightarrow> convert_file parse stringify f32bits file content =
            Inr (container stringify f32bits (convertThreeJsJsonToGltf d file))
          \<and> convert_loop parse stringify f32bits [(file, content)] out =
            out(replace_first ''.js'' ''.glb'' file \<mapsto>
                  container stringify f32bits (convertThreeJsJsonToGltf d file)))
   \<and> (parse content = Some d \<and> convert_file parse stringify f32bits file content = Inl e
      \<longrightarrow> e = RangeError
          \<and> 2 ^ 32 \<le> container_length stringify f32bits (convertThreeJsJsonToGltf d file))"
proof -
  have a: "positions (face_step d s) ! (length (positions s) + 3 * v + k) = NaN"
    if "v < numVertices (isQuad (decode_face (faces d) (cursor s)))" "k < 3"
       "length (faces d) \<le> cursor s + 1 + v"
  proof -
    have "js_elem (vertexIndices (decode_face (faces d) (cursor s))) v = None"
      using that(3) by (simp add: vertexIndices_decode [OF that(1)] js_at_def)
    moreover have "k = 0 \<or> k = 1 \<or> k = 2" using that(2) by arith
    ultimately show ?thesis
      by (auto simp: nth_face_step(1) [OF that(1,2)] corner_position_undefined)
  qed
  show ?thesis
    using a by (auto simp: convert_file_eq Let_def split: if_splits)
qed

text \<open>The claim as stated has the conversion fail. For the stream \<open>[1, 0, 1]\<close>, a
  quad flag followed by two integers only, the conversion emits four corners, the last
  two at NaN, and one output file is written.\<close>

theorem C3_counterexample:
  "positionBuffer (convertThreeJsJsonToGltf
       \<lparr> scale = Some (Fin 1),
         vertices = [Fin 0, Fin 0, Fin 0, Fin 1, Fin 0, Fin 0, Fin 1, Fin 1, Fin 0],
         normals = [], uvs = [], faces = [1, 0, 1], materials = [] \<rparr> ''m.js'')
     = [Fin 0, Fin 0, Fin 0, Fin 1, Fin 0, Fin 0, NaN, NaN, NaN, NaN, NaN, NaN]
   \<and> indexBuffer (convertThreeJsJsonToGltf
       \<lparr> scale = Some (Fin 1),
         vertices = [Fin 0, Fin 0, Fin 0, Fin 1, Fin 0, Fin 0, Fin 1, Fin 1, Fin 0],
         normals = [], uvs = [], faces = [1, 0, 1], materials = [] \<rparr> ''m.js'')
     = Uint16Array [0, 1, 2, 0, 2, 3]
   \<and> dom (convertModels
       (demo_parse \<lparr> scale = Some (Fin 1),
         vertices = [Fin 0, Fin 0, Fin 0, Fin 1, Fin 0, Fin 0, Fin 1, Fin 1, Fin 0],
         normals = [], uvs = [], faces = [1, 0, 1], materials = [] \<rparr>)
       demo_stringify demo_f32bits [(''m.js'', [])] Map.empty) = {''m.glb''}"
proof -
  let ?d = "\<lparr> scale = Some (Fin 1),
         vertices = [Fin 0, Fin 0, Fin 0, Fin 1, Fin 0, Fin 0, Fin 1, Fin 1, Fin 0],
         normals = [], uvs = [], faces = [1, 0, 1], materials = [] \<rparr>"
  have e: "expand ?d = \<lparr> cursor = 5, vertexIndex = 4,
      positions = [Fin 0, Fin 0, Fin 0, Fin 1, Fin 0, Fin 0, NaN, NaN, NaN, NaN, NaN, NaN],
      normalData = [Fin 0, Fin 1, Fin 0, Fin 0, Fin 1, Fin 0, Fin 0, Fin 1, Fin 0,
                    Fin 0, Fin 1, Fin 0],
      uvData = [Fin 0, Fin 0, Fin 0, Fin 0, Fin 0, Fin 0, Fin 0, Fin 0],
      indices = [0, 1, 2, 0, 2, 3] \<rparr>"
    by (simp add: expand_eval)
  have p: "positionBuffer (convertThreeJsJsonToGltf ?d ''m.js'') =
      [Fin 0, Fin 0, Fin 0, Fin 1, Fin 0, Fin 0, NaN, NaN, NaN, NaN, NaN, NaN]"
    and n: "length (normalBuffer (convertThreeJsJsonToGltf ?d ''m.js'')) = 12"
    and u: "length (uvBuffer (convertThreeJsJsonToGltf ?d ''m.js'')) = 8"
    and i: "indexBuffer (convertThreeJsJsonToGltf ?d ''m.js'') = Uint16Array [0, 1, 2, 0, 2, 3]"
    by (simp_all add: convertThreeJsJsonToGltf_def Let_def e round_eval)
  have cl: "container_length demo_stringify demo_f32bits (convertThreeJsJsonToGltf ?d ''m.js'') = 172"
    by (simp add: container_length_def scene_bytes_def demo_stringify_def packed_buffer_def
        length_bin_buffer p n u i length_index_bytes pad_def)
  have "convertModels (demo_parse ?d) demo_stringify demo_f32bits [(''m.js'', [])] Map.empty =
      [''m.glb'' \<mapsto> container demo_stringify demo_f32bits (convertThreeJsJsonToGltf ?d ''m.js'')]"
    by (simp add: convertModels_def endsWith_def suffix_def
        convert_file_eq [of "demo_parse ?d" "[]" ?d] demo_parse_def cl)
  then show ?thesis using p i by simp
qed

text \<open>The same document: its third corner, and the file written for it.\<close>

theorem C3_witness:
  "positions (face_step
       \<lparr> scale = Some (Fin 1),
         vertices = [Fin 0, Fin 0, Fin 0, Fin 1, Fin 0, Fin 0, Fin 1, Fin 1, Fin 0],
         normals = [], uvs = [], faces = [1, 0, 1], materials = [] \<rparr> init_state) ! (0 + 3 * 2 + 0)
     = NaN
   \<and> convert_loop
       (demo_parse \<lparr> scale = Some (Fin 1),
         vertices = [Fin 0, Fin 0, Fin 0, Fin 1, Fin 0, Fin 0, Fin 1, Fin 1, Fin 0],
         normals = [], uvs = [], faces = [1, 0, 1], materials = [] \<rparr>)
       demo_stringify demo_f32bits [(''m.js'', [])] Map.empty
     = [''m.glb'' \<mapsto> container demo_stringify demo_f32bits (convertThreeJsJsonToGltf
         \<lparr> scale = Some (Fin 1),
           vertices = [Fin 0, Fin 0, Fin 0, Fin 1, Fin 0, Fin 0, Fin 1, Fin 1, Fin 0],
           normals = [], uvs = [], faces = [1, 0, 1], materials = [] \<rparr> ''m.js'')]"
proof -
  let ?d = "\<lparr> scale = Some (Fin 1),
         vertices = [Fin 0, Fin 0, Fin 0, Fin 1, Fin 0, Fin 0, Fin 1, Fin 1, Fin 0],
         normals = [], uvs = [], faces = [1, 0, 1], materials = [] \<rparr>"
  have q: "numVertices (isQuad (decode_face (faces ?d) (cursor init_state))) = 4"
    by (simp add: init_state_def decode_face_def Let_def flag_def js_at_def numVertices_def)
  have l: "length (positionBuffer (convertThreeJsJsonToGltf ?d ''m.js'')) = 12"
      "length (normalBuffer (convertThreeJsJsonToGltf ?d ''m.js'')) = 12"
      "length (uvBuffer (convertThreeJsJsonToGltf ?d ''m.js'')) = 8"
      "indexBuffer (convertThreeJsJsonToGltf ?d ''m.js'') = Uint16Array [0, 1, 2, 0, 2, 3]"
    by (simp_all add: convertThreeJsJsonToGltf_def expand_eval)
  have cl: "container_length demo_stringify demo_f32bits (convertThreeJsJsonToGltf ?d ''m.js'') = 172"
    by (simp add: container_length_def scene_bytes_def demo_stringify_def packed_buffer_def
        length_bin_buffer l length_index_bytes pad_def)
  note t = C3_truncated_stream_converts [of 2 ?d init_state 0 "demo_parse ?d" "[]"
      demo_stringify demo_f32bits "''m.js''" Map.empty]
  have a: "positions (face_step ?d init_state) ! (0 + 3 * 2 + 0) = NaN"
    using t [THEN conjunct1] q by (simp add: init_state_def)
  have b: "convert_loop (demo_parse ?d) demo_stringify demo_f32bits [(''m.js'', [])] Map.empty
     = [''m.glb'' \<mapsto> container demo_stringify demo_f32bits (convertThreeJsJsonToGltf ?d ''m.js'')]"
    using t [THEN conjunct2, THEN conjunct1] cl by (simp add: demo_parse_def)
  show ?thesis using a b by (rule conjI)
qed

subsection \<open>C4: the width of the index elements\<close>

text \<open>
  C4, as the code has it. The index buffer is a \<open>Uint16Array\<close> exactly when the number
  of emitted indices (three per triangle face, six per quad face) is below 65536, and a
  \<open>Uint32Array\<close> otherwise; the number is that of the fully expanded document, and the
  index accessor records component type 5123 (16-bit unsigned) in the first case and
  5125 (32-bit unsigned) in the second, for whatever segment lengths. In the first case
  no index is changed by the narrowing to 16 bits.
\<close>

theorem C4_index_width:
  "index_length (indexBuffer (convertThreeJsJsonToGltf d fileName)) =
     3 * sum_list (map num_triangles (faces_from (faces d) 0))
   \<and> is_Uint16Array (indexBuffer (convertThreeJsJsonToGltf d fileName)) =
       (3 * sum_list (map num_triangles (faces_from (faces d) 0)) < 65536)
   \<and> componentType
        (accessors (gltf_json (convertThreeJsJsonToGltf d fileName) posLen normLen uvLen idxLen) ! 3) =
       (if 3 * sum_list (map num_triangles (faces_from (faces d) 0)) < 65536 then 5123 else 5125)
   \<and> (3 * sum_list (map num_triangles (faces_from (faces d) 0)) < 65536 \<longrightarrow>
        (\<exists>ws. indexBuffer (convertThreeJsJsonToGltf d fileName) = Uint16Array ws
              \<and> map unat ws = indices (expand d)))"
proof -
  let ?n = "3 * sum_list (map num_triangles (faces_from (faces d) 0))"
  have n: "length (indices (expand d)) = ?n" by (rule length_indices_expand)
  have fits: "map unat (map of_nat (indices (expand d)) :: 16 word list) = indices (expand d)"
    if "?n < 65536"
  proof (rule map_unat_of_nat16)
    fix i assume "i \<in> set (indices (expand d))"
    then have "i < length (indices (expand d))" by (rule indices_expand_bound)
    with that n show "i < 65536" by simp
  qed
  show ?thesis
    using n fits
    by (simp add: convertThreeJsJsonToGltf_def Let_def gltf_json_def index_length_def
        is_Uint16Array_def)
qed

text \<open>The claim as stated compares the number of corners with 65536. A document of
  10923 quads has 43692 corners, the count of its position accessor, and 65538 indices:
  its index accessor is 32 bits wide.\<close>

theorem C4_counterexample:
  "count (accessors (gltf_json (convertThreeJsJsonToGltf
       \<lparr> scale = None, vertices = [Fin 0, Fin 0, Fin 0, Fin 1, Fin 0, Fin 0,
                                    Fin 1, Fin 1, Fin 0, Fin 0, Fin 1, Fin 0],
         normals = [], uvs = [], faces = quad_stream 10923, materials = [] \<rparr> ''m.js'')
       524304 524304 349536 262152) ! 0) = 43692
   \<and> (43692 :: real) < 65536
   \<and> componentType (accessors (gltf_json (convertThreeJsJsonToGltf
       \<lparr> scale = None, vertices = [Fin 0, Fin 0, Fin 0, Fin 1, Fin 0, Fin 0,
                                    Fin 1, Fin 1, Fin 0, Fin 0, Fin 1, Fin 0],
         normals = [], uvs = [], faces = quad_stream 10923, materials = [] \<rparr> ''m.js'')
       524304 524304 349536 262152) ! 3) = 5125"
proof -
  let ?d = "\<lparr> scale = None, vertices = [Fin 0, Fin 0, Fin 0, Fin 1, Fin 0, Fin 0,
                                    Fin 1, Fin 1, Fin 0, Fin 0, Fin 1, Fin 0],
         normals = [], uvs = [], faces = quad_stream 10923, materials = [] \<rparr>"
  have p: "length (positions (expand ?d)) = 131076"
    using lengths_expand(1) [of ?d] quad_stream_counts(2) [of 10923] by simp
  have i: "length (indices (expand ?d)) = 65538"
    using length_indices_expand [of ?d] quad_stream_counts(1) [of 10923] by simp
  show ?thesis
    by (simp add: gltf_json_def positionBuffer_convert indexBuffer_convert p i
        is_Uint16Array_def)
qed

text \<open>A single quad: six indices, 16 bits wide, unchanged by the narrowing.\<close>

theorem C4_witness:
  "index_length (indexBuffer (convertThreeJsJsonToGltf
       \<lparr> scale = None, vertices = [Fin 0, Fin 0, Fin 0, Fin 1, Fin 0, Fin 0,
                                    Fin 1, Fin 1, Fin 0, Fin 0, Fin 1, Fin 0],
         normals = [], uvs = [], faces = [1, 0, 1, 2, 3], materials = [] \<rparr> ''q.js'')) = 6
   \<and> componentType (accessors (gltf_json (convertThreeJsJsonToGltf
       \<lparr> scale = None, vertices = [Fin 0, Fin 0, Fin 0, Fin 1, Fin 0, Fin 0,
                                    Fin 1, Fin 1, Fin 0, Fin 0, Fin 1, Fin 0],
         normals = [], uvs = [], faces = [1, 0, 1, 2, 3], materials = [] \<rparr> ''q.js'')
       48 48 32 12) ! 3) = 5123
   \<and> (\<exists>ws. indexBuffer (convertThreeJsJsonToGltf
       \<lparr> scale = None, vertices = [Fin 0, Fin 0, Fin 0, Fin 1, Fin 0, Fin 0,
                                    Fin 1, Fin 1, Fin 0, Fin 0, Fin 1, Fin 0],
         normals = [], uvs = [], faces = [1, 0, 1, 2, 3], materials = [] \<rparr> ''q.js'')
         = Uint16Array ws \<and> map unat ws = [0, 1, 2, 0, 2, 3])"
proof -
  let ?d = "\<lparr> scale = None, vertices = [Fin 0, Fin 0, Fin 0, Fin 1, Fin 0, Fin 0,
                                    Fin 1, Fin 1, Fin 0, Fin 0, Fin 1, Fin 0],
         normals = [], uvs = [], faces = [1, 0, 1, 2, 3], materials = [] \<rparr>"
  have n: "sum_list (map num_triangles (faces_from (faces ?d) 0)) = 2"
    by (simp add: faces_from_eval decode_face_def Let_def flag_def js_at_def
        skip_if_def numVertices_def)
  have e: "indices (expand ?d) = [0, 1, 2, 0, 2, 3]"
    by (simp add: expand_eval)
  show ?thesis
    using C4_index_width [of ?d "''q.js''" 48 48 32 12] unfolding n e by simp
qed

subsection \<open>C5: triangulation\<close>

text \<open>
  C5. One round of the loop, from any state, appends to the index list exactly the
  triangles of the face decoded at the cursor, over the fresh corner indices
  \<open>c0 = vertexIndex\<close>, \<open>c0 + 1\<close>, ...: six indices (c0,c1,c2), (c0,c2,c3) for a
  quad, which takes four corners, and three indices (c0,c1,c2) for a triangle, which
  takes three. Hence the index list of the whole document is the fan triangulation of
  its records in stream order, and its length is three times the number of triangles.
  The corner indices follow the source order of the corners: in a state that holds
  three position numbers for each corner emitted so far, which the initial state does
  and which every round preserves, corner index \<open>c0 + v\<close> is given the position of
  the \<open>v\<close>-th vertex index of the record, the integer at \<open>cursor + 1 + v\<close> of the
  stream; the positions of the whole document are those of the corners of its records,
  record after record and corner after corner.
\<close>

theorem C5_triangulation:
  "indices (face_step d s) =
     indices s @
       (if isQuad (decode_face (faces d) (cursor s))
        then [vertexIndex s, vertexIndex s + 1, vertexIndex s + 2,
              vertexIndex s, vertexIndex s + 2, vertexIndex s + 3]
        else [vertexIndex s, vertexIndex s + 1, vertexIndex s + 2])
   \<and> vertexIndex (face_step d s) =
       vertexIndex s + (if isQuad (decode_face (faces d) (cursor s)) then 4 else 3)
   \<and> indices (expand d) = triangulate 0 (map isQuad (faces_from (faces d) 0))
   \<and> length (indices (expand d)) = 3 * sum_list (map num_triangles (faces_from (faces d) 0))
   \<and> (length (positions s) = 3 * vertexIndex s
        \<and> v < (if isQuad (decode_face (faces d) (cursor s)) then 4 else 3) \<and> k < 3
      \<longrightarrow> positions (face_step d s) ! (3 * (vertexIndex s + v) + k) =
            corner_position d (js_at (faces d) (cursor s + 1 + v)) ! k)
   \<and> (length (positions s) = 3 * vertexIndex s
      \<longrightarrow> length (positions (face_step d s)) = 3 * vertexIndex (face_step d s))
   \<and> length (positions init_state) = 3 * vertexIndex init_state
   \<and> length (positions (expand d)) = 3 * vertexIndex (expand d)
   \<and> positions (expand d) =
       concat (map (\<lambda>f. concat (map (\<lambda>v. corner_position d (js_elem (vertexIndices f) v))
                                   [0..<if isQuad f then 4 else 3]))
                 (faces_from (faces d) 0))"
proof -
  have tri: "length (indices (expand d)) = 3 * sum_list (map num_triangles (faces_from (faces d) 0))"
    by (rule length_indices_expand)
  have corner: "positions (face_step d s) ! (3 * (vertexIndex s + v) + k) =
      corner_position d (js_at (faces d) (cursor s + 1 + v)) ! k"
    if "length (positions s) = 3 * vertexIndex s"
       "v < numVertices (isQuad (decode_face (faces d) (cursor s)))" "k < 3"
  proof -
    have "3 * (vertexIndex s + v) + k = length (positions s) + 3 * v + k"
      using that(1) by simp
    then show ?thesis
      by (simp only: nth_face_step(1) [OF that(2,3)] vertexIndices_decode [OF that(2)])
  qed
  have all: "positions (fold (\<lambda>f s. (emit_face d f s)\<lparr> cursor := next_i f \<rparr>) fs s0) =
      positions s0 @
      concat (map (\<lambda>f. concat (map (\<lambda>v. corner_position d (js_elem (vertexIndices f) v))
                                  [0..<numVertices (isQuad f)])) fs)"
    for fs s0
  proof (induction fs arbitrary: s0)
    case Nil
    show ?case by simp
  next
    case (Cons f fs)
    have "positions (emit_face d f s0) = positions s0 @
        concat (map (\<lambda>v. corner_position d (js_elem (vertexIndices f) v))
                  [0..<numVertices (isQuad f)])"
      by (simp add: emit_face_eq)
    then show ?case by (simp add: Cons.IH)
  qed
  have whole: "positions (expand d) =
      concat (map (\<lambda>f. concat (map (\<lambda>v. corner_position d (js_elem (vertexIndices f) v))
                                  [0..<numVertices (isQuad f)])) (faces_from (faces d) 0))"
    by (simp add: expand_def while_faces_fold all init_state_def)
  have nv: "numVertices q = (if q then 4 else 3)" for q
    by (simp add: numVertices_def)
  have c1: "indices (face_step d s) =
     indices s @
       (if isQuad (decode_face (faces d) (cursor s))
        then [vertexIndex s, vertexIndex s + 1, vertexIndex s + 2,
              vertexIndex s, vertexIndex s + 2, vertexIndex s + 3]
        else [vertexIndex s, vertexIndex s + 1, vertexIndex s + 2])"
    by (simp add: face_step_def Let_def indices_emit_face)
  have c2: "vertexIndex (face_step d s) =
       vertexIndex s + (if isQuad (decode_face (faces d) (cursor s)) then 4 else 3)"
    by (simp add: vertexIndex_face_step nv)
  have c3: "indices (expand d) = triangulate 0 (map isQuad (faces_from (faces d) 0))"
    by (rule indices_expand)
  have c5: "length (positions s) = 3 * vertexIndex s
        \<and> v < (if isQuad (decode_face (faces d) (cursor s)) then 4 else 3) \<and> k < 3
      \<longrightarrow> positions (face_step d s) ! (3 * (vertexIndex s + v) + k) =
            corner_position d (js_at (faces d) (cursor s + 1 + v)) ! k"
    using corner by (simp add: nv)
  have c6: "length (positions s) = 3 * vertexIndex s
      \<longrightarrow> length (positions (face_step d s)) = 3 * vertexIndex (face_step d s)"
    by (simp add: length_positions_face_step vertexIndex_face_step)
  have c7: "length (positions init_state) = 3 * vertexIndex init_state"
    by (simp add: init_state_def)
  have c8: "length (positions (expand d)) = 3 * vertexIndex (expand d)"
    by (simp add: lengths_expand)
  have c9: "positions (expand d) =
       concat (map (\<lambda>f. concat (map (\<lambda>v. corner_position d (js_elem (vertexIndices f) v))
                                   [0..<if isQuad f then 4 else 3]))
                 (faces_from (faces d) 0))"
    using whole by (simp only: nv)
  show ?thesis
    using c1 c2 c3 tri c5 c6 c7 c8 c9 by (intro conjI)
qed

text \<open>A triangle over the vertices 3, 2, 1 followed by a quad over 0, 1, 2, 3: the quad
  is decoded at cursor 4 with three corners already emitted, and its second corner,
  index 4, lies at vertex 1.\<close>

theorem C5_witness:
  "indices (face_step
       \<lparr> scale = None,
         vertices = [Fin 0, Fin 0, Fin 0, Fin 1, Fin 0, Fin 0, Fin 1, Fin 1, Fin 0,
                     Fin 0, Fin 1, Fin 0],
         normals = [], uvs = [],
         faces = [0, 3, 2, 1, 1, 0, 1, 2, 3], materials = [] \<rparr>
       \<lparr> cursor = 4, vertexIndex = 3,
         positions = [Fin 0, Fin 1, Fin 0, Fin 1, Fin 1, Fin 0, Fin 1, Fin 0, Fin 0],
         normalData = [], uvData = [],
         indices = [0, 1, 2] \<rparr>) = [0, 1, 2, 3, 4, 5, 3, 5, 6]
   \<and> length (indices (expand
       \<lparr> scale = None,
         vertices = [Fin 0, Fin 0, Fin 0, Fin 1, Fin 0, Fin 0, Fin 1, Fin 1, Fin 0,
                     Fin 0, Fin 1, Fin 0],
         normals = [], uvs = [],
         faces = [0, 3, 2, 1, 1, 0, 1, 2, 3], materials = [] \<rparr>)) = 9
   \<and> positions (face_step
       \<lparr> scale = None,
         vertices = [Fin 0, Fin 0, Fin 0, Fin 1, Fin 0, Fin 0, Fin 1, Fin 1, Fin 0,
                     Fin 0, Fin 1, Fin 0],
         normals = [], uvs = [],
         faces = [0, 3, 2, 1, 1, 0, 1, 2, 3], materials = [] \<rparr>
       \<lparr> cursor = 4, vertexIndex = 3,
         positions = [Fin 0, Fin 1, Fin 0, Fin 1, Fin 1, Fin 0, Fin 1, Fin 0, Fin 0],
         normalData = [], uvData = [],
         indices = [0, 1, 2] \<rparr>) ! (3 * (3 + 1) + 0) = Fin 1"
proof -
  let ?d = "\<lparr> scale = None,
         vertices = [Fin 0, Fin 0, Fin 0, Fin 1, Fin 0, Fin 0, Fin 1, Fin 1, Fin 0,
                     Fin 0, Fin 1, Fin 0],
         normals = [], uvs = [],
         faces = [0, 3, 2, 1, 1, 0, 1, 2, 3], materials = [] \<rparr>"
  let ?s = "\<lparr> cursor = 4, vertexIndex = 3,
         positions = [Fin 0, Fin 1, Fin 0, Fin 1, Fin 1, Fin 0, Fin 1, Fin 0, Fin 0],
         normalData = [], uvData = [],
         indices = [0, 1, 2 :: nat] \<rparr>"
  have q: "isQuad (decode_face (faces ?d) (cursor ?s))"
    by (simp add: decode_face_def Let_def flag_def js_at_def)
  have n: "sum_list (map num_triangles (faces_from (faces ?d) 0)) = 3"
    by (simp add: faces_from_eval decode_face_def Let_def flag_def js_at_def
        skip_if_def numVertices_def)
  have c: "corner_position ?d (js_at (faces ?d) (cursor ?s + 1 + 1)) ! 0 = Fin 1"
    by (simp add: corner_position_def Let_def js_at_def js_index_def to_num_def js_mul_def
        scale_of_def js_or_def round_eval)
  note t = C5_triangulation [of ?d ?s 1 0]
  have a: "indices (face_step ?d ?s) = [0, 1, 2, 3, 4, 5, 3, 5, 6]"
    using t [THEN conjunct1] q by simp
  have b: "length (indices (expand ?d)) = 9"
    using t [THEN conjunct2, THEN conjunct2, THEN conjunct2, THEN conjunct1] n by simp
  have e: "positions (face_step ?d ?s) ! (3 * (3 + 1) + 0) = Fin 1"
    using t [THEN conjunct2, THEN conjunct2, THEN conjunct2, THEN conjunct2, THEN conjunct1] q c
    by simp
  show ?thesis using a b e by (intro conjI)
qed

subsection \<open>C6: the length field of the container\<close>

text \<open>
  C6. Whenever createGlb returns a container, it is, byte for byte: the header (the
  magic number, version 2 and the total length, 4 bytes each), the JSON chunk (its
  length, the tag JSON, the serialised scene description followed by the spaces that
  pad it to a multiple of 4), and the binary chunk (its length, the tag BIN, the packed
  buffer). The length of the container is 12 + 8 + the padded JSON length + 8 + the
  buffer length, and it is the number read back from bytes 8 to 11.
\<close>

theorem C6_container_length:
  "createGlb stringify f32bits data = Inr glb \<Longrightarrow>
     glb = u32le 0x46546C67 @ u32le 2 @ u32le (length glb) @
           u32le (length (scene_bytes stringify f32bits data)
                    + pad (length (scene_bytes stringify f32bits data))) @
           u32le 0x4E4F534A @
           scene_bytes stringify f32bits data @
           replicate (pad (length (scene_bytes stringify f32bits data))) 0x20 @
           u32le (length (packed_buffer f32bits data)) @ u32le 0x004E4942 @
           packed_buffer f32bits data
     \<and> length glb = 12 + (8 + (length (scene_bytes stringify f32bits data)
                                 + pad (length (scene_bytes stringify f32bits data))))
                       + (8 + length (packed_buffer f32bits data))
     \<and> le_value (take 4 (drop 8 glb)) = length glb
     \<and> (length (scene_bytes stringify f32bits data)
          + pad (length (scene_bytes stringify f32bits data))) mod 4 = 0
     \<and> length (packed_buffer f32bits data) mod 4 = 0"
proof -
  assume r: "createGlb stringify f32bits data = Inr glb"
  have fits: "container_length stringify f32bits data < 2 ^ 32"
    using r by (simp add: createGlb_eq split: if_splits)
  have glb: "glb = container stringify f32bits data"
    using r fits by (simp add: createGlb_eq)
  have len: "length glb = container_length stringify f32bits data"
    unfolding glb by (rule length_container)
  have field: "take 4 (drop 8 glb) = u32le (container_length stringify f32bits data)"
    unfolding glb by (simp add: container_def)
  have bin: "length (packed_buffer f32bits data) mod 4 = 0"
  proof -
    have "(a + b + c + d) mod 4 = 0" if "a mod 4 = 0" "b mod 4 = 0" "c mod 4 = 0" "d mod 4 = 0"
      for a b c d :: nat
      using that by presburger
    from this [OF pad_aligns pad_aligns pad_aligns pad_aligns]
    show ?thesis
      by (simp only: packed_buffer_def length_bin_buffer add.assoc)
  qed
  show ?thesis
    using fits bin
    by (simp add: len field le_value_u32le pad_aligns)
       (simp add: glb container_def container_length_def)
qed

text \<open>The one-triangle document with the stand-in serialiser: 136 bytes.\<close>

theorem C6_witness:
  "\<exists>glb. createGlb demo_stringify demo_f32bits (convertThreeJsJsonToGltf
       \<lparr> scale = Some (Fin 1),
         vertices = [Fin 0, Fin 0, Fin 0, Fin 1, Fin 0, Fin 0, Fin 1, Fin 1, Fin 0],
         normals = [], uvs = [], faces = [0, 0, 1, 2], materials = [] \<rparr> ''t.js'') = Inr glb
     \<and> length glb = 136 \<and> le_value (take 4 (drop 8 glb)) = 136"
proof -
  let ?data = "convertThreeJsJsonToGltf
       \<lparr> scale = Some (Fin 1),
         vertices = [Fin 0, Fin 0, Fin 0, Fin 1, Fin 0, Fin 0, Fin 1, Fin 1, Fin 0],
         normals = [], uvs = [], faces = [0, 0, 1, 2], materials = [] \<rparr> ''t.js''"
  have j: "length (scene_bytes demo_stringify demo_f32bits ?data) = 2"
    by (simp add: scene_bytes_def demo_stringify_def)
  have b: "length (packed_buffer demo_f32bits ?data) = 104"
    by (simp add: packed_buffer_def length_bin_buffer demo_triangle_lengths
        length_index_bytes pad_def)
  have cl: "container_length demo_stringify demo_f32bits ?data = 136"
    by (simp add: container_length_def j b pad_def)
  have r: "createGlb demo_stringify demo_f32bits ?data =
      Inr (container demo_stringify demo_f32bits ?data)"
    by (simp add: createGlb_eq cl)
  note t = C6_container_length [OF r]
  have "length (container demo_stringify demo_f32bits ?data) = 136"
    using t [THEN conjunct2, THEN conjunct1] by (simp add: j b pad_def)
  moreover have "le_value (take 4 (drop 8 (container demo_stringify demo_f32bits ?data))) = 136"
    using t [THEN conjunct2, THEN conjunct2, THEN conjunct1] calculation by simp
  ultimately show ?thesis using r by blast
qed

subsection \<open>C7: the packed buffer\<close>

text \<open>
  C7. In every container that createGlb returns for converted data, the bytes after the
  header of the binary chunk are the bytes of the positions, the normals, the UVs and
  the indices in this order, each followed by the zero bytes that pad it to a multiple
  of 4, and the JSON chunk carries the serialisation of the scene description whose
  four buffer views record the offsets and lengths of these segments. Every offset is
  a multiple of 4, and the declared length of the buffer is the sum of the four padded
  lengths, which is the length of the packed bytes.
\<close>

theorem C7_buffer_layout:
  "createGlb stringify f32bits data = Inr glb \<Longrightarrow>
     (let posBytes = float32_bytes f32bits (positionBuffer data);
          normBytes = float32_bytes f32bits (normalBuffer data);
          uvBytes = float32_bytes f32bits (uvBuffer data);
          idxBytes = index_bytes (indexBuffer data);
          g = gltf_json data (length posBytes) (length normBytes) (length uvBytes)
                (length idxBytes);
          json = stringify g
      in take (length json) (drop 20 glb) = json
         \<and> drop (20 + (length json + pad (length json)) + 8) glb =
             posBytes @ replicate (pad (length posBytes)) 0 @
             normBytes @ replicate (pad (length normBytes)) 0 @
             uvBytes @ replicate (pad (length uvBytes)) 0 @
             idxBytes @ replicate (pad (length idxBytes)) 0
         \<and> map byteOffset (bufferViews g) =
             [0,
              length posBytes + pad (length posBytes),
              length posBytes + pad (length posBytes)
                + (length normBytes + pad (length normBytes)),
              length posBytes + pad (length posBytes)
                + (length normBytes + pad (length normBytes))
                + (length uvBytes + pad (length uvBytes))]
         \<and> map byteLength (bufferViews g) =
             [length posBytes, length normBytes, length uvBytes, length idxBytes]
         \<and> (\<forall>bv \<in> set (bufferViews g). byteOffset bv mod 4 = 0)
         \<and> buffers g =
             [(length posBytes + pad (length posBytes))
              + (length normBytes + pad (length normBytes))
              + (length uvBytes + pad (length uvBytes))
              + (length idxBytes + pad (length idxBytes))]
         \<and> length (drop (20 + (length json + pad (length json)) + 8) glb) =
             (length posBytes + pad (length posBytes))
             + (length normBytes + pad (length normBytes))
             + (length uvBytes + pad (length uvBytes))
             + (length idxBytes + pad (length idxBytes)))"
proof -
  assume r: "createGlb stringify f32bits data = Inr glb"
  let ?p = "float32_bytes f32bits (positionBuffer data)"
  let ?n = "float32_bytes f32bits (normalBuffer data)"
  let ?u = "float32_bytes f32bits (uvBuffer data)"
  let ?i = "index_bytes (indexBuffer data)"
  let ?g = "gltf_json data (length ?p) (length ?n) (length ?u) (length ?i)"
  let ?j = "stringify ?g"
  let ?bin = "?p @ replicate (pad (length ?p)) 0 @ ?n @ replicate (pad (length ?n)) 0 @
      ?u @ replicate (pad (length ?u)) 0 @ ?i @ replicate (pad (length ?i)) 0"
  have fits: "container_length stringify f32bits data < 2 ^ 32"
    using r by (simp add: createGlb_eq split: if_splits)
  have glb: "glb = container stringify f32bits data"
    using r fits by (simp add: createGlb_eq)
  have j: "scene_bytes stringify f32bits data = ?j"
    by (simp only: scene_bytes_def)
  have b: "packed_buffer f32bits data = ?bin"
    by (simp only: packed_buffer_def bin_buffer_layout)
  have parts: "glb = (u32le 0x46546C67 @ u32le 2 @ u32le (container_length stringify f32bits data)
      @ u32le (length ?j + pad (length ?j)) @ u32le 0x4E4F534A) @ ?j @
      (replicate (pad (length ?j)) 0x20 @ u32le (length ?bin) @ u32le 0x004E4942) @ ?bin"
    unfolding glb container_def j b by simp
  have c1: "take (length ?j) (drop 20 glb) = ?j"
    by (subst parts) simp
  have c2: "drop (20 + (length ?j + pad (length ?j)) + 8) glb = ?bin"
    by (subst parts) simp
  have m: "(a + b) mod 4 = 0" if "a mod 4 = 0" "b mod 4 = 0" for a b :: nat
    using that by presburger
  have o1: "(length ?p + pad (length ?p)) mod 4 = 0" by (rule pad_aligns)
  have o2: "(length ?p + pad (length ?p) + (length ?n + pad (length ?n))) mod 4 = 0"
    by (rule m [OF o1 pad_aligns])
  have o3: "(length ?p + pad (length ?p) + (length ?n + pad (length ?n))
      + (length ?u + pad (length ?u))) mod 4 = 0"
    by (rule m [OF o2 pad_aligns])
  have c3: "map byteOffset (bufferViews ?g) =
      [0, length ?p + pad (length ?p),
       length ?p + pad (length ?p) + (length ?n + pad (length ?n)),
       length ?p + pad (length ?p) + (length ?n + pad (length ?n))
         + (length ?u + pad (length ?u))]"
    by (simp add: gltf_json_def Let_def)
  have c4: "map byteLength (bufferViews ?g) = [length ?p, length ?n, length ?u, length ?i]"
    by (simp add: gltf_json_def Let_def)
  have c5: "\<forall>bv \<in> set (bufferViews ?g). byteOffset bv mod 4 = 0"
  proof -
    have "\<forall>x \<in> set (map byteOffset (bufferViews ?g)). x mod 4 = 0"
      unfolding c3 using o1 o2 o3 by simp
    then show ?thesis by simp
  qed
  have c6: "buffers ?g = [(length ?p + pad (length ?p)) + (length ?n + pad (length ?n))
      + (length ?u + pad (length ?u)) + (length ?i + pad (length ?i))]"
    by (simp add: gltf_json_def Let_def)
  have c7: "length (drop (20 + (length ?j + pad (length ?j)) + 8) glb) =
      (length ?p + pad (length ?p)) + (length ?n + pad (length ?n))
      + (length ?u + pad (length ?u)) + (length ?i + pad (length ?i))"
    unfolding c2 by simp
  show ?thesis
    unfolding Let_def using c1 c2 c3 c4 c5 c6 c7 by (intro conjI)
qed

text \<open>The one-triangle document: segments of 36, 36, 24 and 6 bytes, the last one
  (the indices 0, 1, 2 in 16 bits) padded with two zero bytes.\<close>

theorem C7_witness:
  "\<exists>glb. createGlb demo_stringify demo_f32bits (convertThreeJsJsonToGltf
       \<lparr> scale = Some (Fin 1),
         vertices = [Fin 0, Fin 0, Fin 0, Fin 1, Fin 0, Fin 0, Fin 1, Fin 1, Fin 0],
         normals = [], uvs = [], faces = [0, 0, 1, 2], materials = [] \<rparr> ''t.js'') = Inr glb
     \<and> length (drop 32 glb) = 104
     \<and> drop 128 glb = [0, 0, 1, 0, 2, 0, 0, 0]
     \<and> map byteOffset (bufferViews (gltf_json (convertThreeJsJsonToGltf
       \<lparr> scale = Some (Fin 1),
         vertices = [Fin 0, Fin 0, Fin 0, Fin 1, Fin 0, Fin 0, Fin 1, Fin 1, Fin 0],
         normals = [], uvs = [], faces = [0, 0, 1, 2], materials = [] \<rparr> ''t.js'')
         36 36 24 6)) = [0, 36, 72, 96]"
proof -
  let ?data = "convertThreeJsJsonToGltf
       \<lparr> scale = Some (Fin 1),
         vertices = [Fin 0, Fin 0, Fin 0, Fin 1, Fin 0, Fin 0, Fin 1, Fin 1, Fin 0],
         normals = [], uvs = [], faces = [0, 0, 1, 2], materials = [] \<rparr> ''t.js''"
  have l: "length (float32_bytes demo_f32bits (positionBuffer ?data)) = 36"
      "length (float32_bytes demo_f32bits (normalBuffer ?data)) = 36"
      "length (float32_bytes demo_f32bits (uvBuffer ?data)) = 24"
      "length (index_bytes (indexBuffer ?data)) = 6"
    by (simp_all add: demo_triangle_lengths length_index_bytes)
  have i: "index_bytes (indexBuffer ?data) = [0, 0, 1, 0, 2, 0]"
    by (simp add: demo_triangle_lengths index_bytes_def le_bytes_def upt_rec)
  have j: "length (scene_bytes demo_stringify demo_f32bits ?data) = 2"
    by (simp add: scene_bytes_def demo_stringify_def)
  have b: "length (packed_buffer demo_f32bits ?data) = 104"
    by (simp add: packed_buffer_def length_bin_buffer demo_triangle_lengths
        length_index_bytes pad_def)
  have cl: "container_length demo_stringify demo_f32bits ?data = 136"
    by (simp add: container_length_def j b pad_def)
  have r: "createGlb demo_stringify demo_f32bits ?data =
      Inr (container demo_stringify demo_f32bits ?data)"
    by (simp add: createGlb_eq cl)
  note t = C7_buffer_layout [OF r, unfolded Let_def l]
  have js: "length (demo_stringify (gltf_json ?data 36 36 24 6)) = 2"
    by (simp add: demo_stringify_def)
  have p: "pad 2 = 2" "pad 36 = 0" "pad 24 = 0" "pad 6 = 2"
    by (simp_all add: pad_def)
  have a: "length (drop 32 (container demo_stringify demo_f32bits ?data)) = 104"
    using t [THEN conjunct2, THEN conjunct2, THEN conjunct2, THEN conjunct2, THEN conjunct2,
        THEN conjunct2]
    by (simp add: js p)
  have c: "map byteOffset (bufferViews (gltf_json ?data 36 36 24 6)) = [0, 36, 72, 96]"
    using t [THEN conjunct2, THEN conjunct2, THEN conjunct1] by (simp add: p)
  let ?pre = "float32_bytes demo_f32bits (positionBuffer ?data) @
      float32_bytes demo_f32bits (normalBuffer ?data) @
      float32_bytes demo_f32bits (uvBuffer ?data)"
  have len: "length ?pre = 96"
    by (simp add: demo_triangle_lengths)
  have "drop 32 (container demo_stringify demo_f32bits ?data) = ?pre @ [0, 0, 1, 0, 2, 0, 0, 0]"
    using t [THEN conjunct2, THEN conjunct1] by (simp add: js p i pad_def numeral_2_eq_2)
  then have "drop (length ?pre) (drop 32 (container demo_stringify demo_f32bits ?data)) =
      [0, 0, 1, 0, 2, 0, 0, 0]"
    by (metis append_eq_conv_conj)
  then have e: "drop 128 (container demo_stringify demo_f32bits ?data) = [0, 0, 1, 0, 2, 0, 0, 0]"
    unfolding len by simp
  show ?thesis
    by (rule exI [of _ "container demo_stringify demo_f32bits ?data"]) (intro conjI r a e c)
qed

subsection \<open>C8: the one-triangle document\<close>

text \<open>
  C8. The document \<open>{scale: 1, vertices: [0,0,0, 1,0,0, 1,1,0], faces: [0,0,1,2]}\<close> (the
  members it does not have read as empty arrays) is converted, under any file name,
  to one triangle with indices 0, 1, 2: three positions equal to the three source
  vertices, three normals (0,1,0), three UVs (0,0), and the bounding box from (0,0,0)
  to (1,1,0).
\<close>

theorem C8_round_trip:
  "convertThreeJsJsonToGltf
     \<lparr> scale = Some (Fin 1),
       vertices = [Fin 0, Fin 0, Fin 0, Fin 1, Fin 0, Fin 0, Fin 1, Fin 1, Fin 0],
       normals = [], uvs = [], faces = [0, 0, 1, 2], materials = [] \<rparr> fileName =
   \<lparr> positionBuffer = [Fin 0, Fin 0, Fin 0, Fin 1, Fin 0, Fin 0, Fin 1, Fin 1, Fin 0],
     normalBuffer = [Fin 0, Fin 1, Fin 0, Fin 0, Fin 1, Fin 0, Fin 0, Fin 1, Fin 0],
     uvBuffer = [Fin 0, Fin 0, Fin 0, Fin 0, Fin 0, Fin 0],
     indexBuffer = Uint16Array [0, 1, 2],
     baseColor = keyword_scan (toLowerCase fileName) colorMap defaultColor,
     bounds = \<lparr> bmin = [Fin 0, Fin 0, Fin 0], bmax = [Fin 1, Fin 1, Fin 0] \<rparr>,
     name = replace_first ''.js'' [] fileName \<rparr>"
  by (simp add: convertThreeJsJsonToGltf_def expand_eval bounds_eval resolve_color_def)

subsection \<open>C9: the bounding box\<close>

text \<open>
  C9, as the code has it. The position accessor records the bounds computed by the
  conversion. The bounds are folded over the array \<open>positions\<close>, the scaled binary64
  coordinates, three for each emitted corner; the position buffer holds these numbers
  rounded to binary32. On each axis \<open>k\<close>: if the document has at least one face and
  no number of \<open>positions\<close> on that axis is NaN, the recorded minimum is one of these
  numbers and is below or equal to all of them, and the recorded maximum is one of them
  and is above or equal to all of them; if one of them is NaN, the recorded minimum and
  maximum on that axis are both NaN.
\<close>

theorem C9_bounding_box:
  "k < 3 \<Longrightarrow>
   accMin (accessors (gltf_json (convertThreeJsJsonToGltf d fileName) posLen normLen uvLen idxLen) ! 0)
     = Some (bmin (bounds (convertThreeJsJsonToGltf d fileName)))
   \<and> accMax (accessors (gltf_json (convertThreeJsJsonToGltf d fileName) posLen normLen uvLen idxLen) ! 0)
     = Some (bmax (bounds (convertThreeJsJsonToGltf d fileName)))
   \<and> positionBuffer (convertThreeJsJsonToGltf d fileName) = map fround (positions (expand d))
   \<and> length (positions (expand d)) = 3 * num_corners (faces_from (faces d) 0)
   \<and> (faces d \<noteq> [] \<and> NaN \<notin> set (axis_values k (positions (expand d))) \<longrightarrow>
        bmin (bounds (convertThreeJsJsonToGltf d fileName)) ! k
          \<in> set (axis_values k (positions (expand d)))
        \<and> (\<forall>x \<in> set (axis_values k (positions (expand d))).
              js_le (bmin (bounds (convertThreeJsJsonToGltf d fileName)) ! k) x)
        \<and> bmax (bounds (convertThreeJsJsonToGltf d fileName)) ! k
          \<in> set (axis_values k (positions (expand d)))
        \<and> (\<forall>x \<in> set (axis_values k (positions (expand d))).
              js_le x (bmax (bounds (convertThreeJsJsonToGltf d fileName)) ! k)))
   \<and> (NaN \<in> set (axis_values k (positions (expand d))) \<longrightarrow>
        bmin (bounds (convertThreeJsJsonToGltf d fileName)) ! k = NaN
        \<and> bmax (bounds (convertThreeJsJsonToGltf d fileName)) ! k = NaN)"
proof -
  assume k: "k < 3"
  let ?vs = "axis_values k (positions (expand d))"
  have mn: "bmin (bounds (convertThreeJsJsonToGltf d fileName)) ! k = fold (\<lambda>v m. math_min m v) ?vs PosInf"
    and mx: "bmax (bounds (convertThreeJsJsonToGltf d fileName)) ! k = fold (\<lambda>v m. math_max m v) ?vs NegInf"
    unfolding bounds_convert using nth_012 [OF k] by simp_all
  have fin: "fold (\<lambda>v m. math_min m v) ?vs PosInf \<in> set ?vs
        \<and> (\<forall>x\<in>set ?vs. js_le (fold (\<lambda>v m. math_min m v) ?vs PosInf) x)
        \<and> fold (\<lambda>v m. math_max m v) ?vs NegInf \<in> set ?vs
        \<and> (\<forall>x\<in>set ?vs. js_le x (fold (\<lambda>v m. math_max m v) ?vs NegInf))"
    if "faces d \<noteq> []" "NaN \<notin> set ?vs"
    using fold_min_PosInf [OF that(2) axis_values_nonempty [OF that(1)]]
          fold_max_NegInf [OF that(2) axis_values_nonempty [OF that(1)]]
    by blast
  have nan: "fold (\<lambda>v m. math_min m v) ?vs PosInf = NaN \<and> fold (\<lambda>v m. math_max m v) ?vs NegInf = NaN"
    if "NaN \<in> set ?vs"
    using that by (simp add: fold_min_has_NaN fold_max_has_NaN)
  show ?thesis
    unfolding mn mx positionBuffer_convert
    using fin nan by (simp add: gltf_json_def lengths_expand)
qed

text \<open>The claim as stated bounds the emitted values. A triangle at the binary64 value
  of 0.1 on the first axis records the maximum 0.1, while the buffer holds the binary32
  value 13421773 / 134217728, which is above it. And a triangle whose third vertex index
  is past the end of \<open>vertices\<close> emits a NaN corner: every bound is then NaN, which is
  neither below nor above the other values.\<close>

theorem C9_counterexample:
  "bounds (convertThreeJsJsonToGltf
       \<lparr> scale = None,
         vertices = [Fin (3602879701896397 / 36028797018963968), Fin 0, Fin 0],
         normals = [], uvs = [], faces = [0, 0, 0, 0], materials = [] \<rparr> ''m.js'')
     = \<lparr> bmin = [Fin (3602879701896397 / 36028797018963968), Fin 0, Fin 0],
         bmax = [Fin (3602879701896397 / 36028797018963968), Fin 0, Fin 0] \<rparr>
   \<and> positionBuffer (convertThreeJsJsonToGltf
       \<lparr> scale = None,
         vertices = [Fin (3602879701896397 / 36028797018963968), Fin 0, Fin 0],
         normals = [], uvs = [], faces = [0, 0, 0, 0], materials = [] \<rparr> ''m.js'')
     = [Fin (13421773 / 134217728), Fin 0, Fin 0,
        Fin (13421773 / 134217728), Fin 0, Fin 0,
        Fin (13421773 / 134217728), Fin 0, Fin 0]
   \<and> \<not> js_le (Fin (13421773 / 134217728)) (Fin (3602879701896397 / 36028797018963968))
   \<and> positionBuffer (convertThreeJsJsonToGltf
       \<lparr> scale = Some (Fin 1),
         vertices = [Fin 0, Fin 0, Fin 0, Fin 1, Fin 0, Fin 0, Fin 1, Fin 1, Fin 0],
         normals = [], uvs = [], faces = [0, 0, 1, 5], materials = [] \<rparr> ''m.js'')
     = [Fin 0, Fin 0, Fin 0, Fin 1, Fin 0, Fin 0, NaN, NaN, NaN]
   \<and> bounds (convertThreeJsJsonToGltf
       \<lparr> scale = Some (Fin 1),
         vertices = [Fin 0, Fin 0, Fin 0, Fin 1, Fin 0, Fin 0, Fin 1, Fin 1, Fin 0],
         normals = [], uvs = [], faces = [0, 0, 1, 5], materials = [] \<rparr> ''m.js'')
     = \<lparr> bmin = [NaN, NaN, NaN], bmax = [NaN, NaN, NaN] \<rparr>
   \<and> \<not> js_le NaN (Fin 0) \<and> \<not> js_le (Fin 1) NaN"
  by (simp add: convertThreeJsJsonToGltf_def expand_eval bounds_eval round64_0_1 f32_0_1)

text \<open>The triangle of C8 scaled by 2: on the first axis the numbers are 0, 2, 2.\<close>

theorem C9_witness:
  "bmin (bounds (convertThreeJsJsonToGltf
       \<lparr> scale = Some (Fin 2),
         vertices = [Fin 0, Fin 0, Fin 0, Fin 1, Fin 0, Fin 0, Fin 1, Fin 1, Fin 0],
         normals = [], uvs = [], faces = [0, 0, 1, 2], materials = [] \<rparr> ''m.js'')) ! 0 = Fin 0
   \<and> bmax (bounds (convertThreeJsJsonToGltf
       \<lparr> scale = Some (Fin 2),
         vertices = [Fin 0, Fin 0, Fin 0, Fin 1, Fin 0, Fin 0, Fin 1, Fin 1, Fin 0],
         normals = [], uvs = [], faces = [0, 0, 1, 2], materials = [] \<rparr> ''m.js'')) ! 0 = Fin 2
   \<and> axis_values 0 (positions (expand
       \<lparr> scale = Some (Fin 2),
         vertices = [Fin 0, Fin 0, Fin 0, Fin 1, Fin 0, Fin 0, Fin 1, Fin 1, Fin 0],
         normals = [], uvs = [], faces = [0, 0, 1, 2], materials = [] \<rparr>))
       = [Fin 0, Fin 2, Fin 2]"
proof -
  let ?d = "\<lparr> scale = Some (Fin 2),
         vertices = [Fin 0, Fin 0, Fin 0, Fin 1, Fin 0, Fin 0, Fin 1, Fin 1, Fin 0],
         normals = [], uvs = [], faces = [0, 0, 1, 2], materials = [] \<rparr>"
  have p: "positions (expand ?d) =
      [Fin 0, Fin 0, Fin 0, Fin 2, Fin 0, Fin 0, Fin 2, Fin 2, Fin 0]"
    by (simp add: expand_eval)
  have a: "axis_values 0 (positions (expand ?d)) = [Fin 0, Fin 2, Fin 2]"
    unfolding p by (simp add: axis_values_def upt_0_3)
  have k: "(0::nat) < 3" by simp
  have h: "faces ?d \<noteq> [] \<and> NaN \<notin> set (axis_values 0 (positions (expand ?d)))"
    unfolding a by simp
  note t = C9_bounding_box [OF k, of ?d "''m.js''" 36 36 24 6]
  from t h have mn: "bmin (bounds (convertThreeJsJsonToGltf ?d ''m.js'')) ! 0 \<in> set [Fin 0, Fin 2, Fin 2]"
    and lo: "\<forall>x\<in>set [Fin 0, Fin 2, Fin 2]. js_le (bmin (bounds (convertThreeJsJsonToGltf ?d ''m.js'')) ! 0) x"
    and mx: "bmax (bounds (convertThreeJsJsonToGltf ?d ''m.js'')) ! 0 \<in> set [Fin 0, Fin 2, Fin 2]"
    and hi: "\<forall>x\<in>set [Fin 0, Fin 2, Fin 2]. js_le x (bmax (bounds (convertThreeJsJsonToGltf ?d ''m.js'')) ! 0)"
    unfolding a by blast+
  have "bmin (bounds (convertThreeJsJsonToGltf ?d ''m.js'')) ! 0 = Fin 0"
    using mn lo by (auto simp: js_le_def)
  moreover have "bmax (bounds (convertThreeJsJsonToGltf ?d ''m.js'')) ! 0 = Fin 2"
    using mx hi by (auto simp: js_le_def)
  ultimately show ?thesis using a by simp
qed

subsection \<open>C10: no bounds checks\<close>

text \<open>
  C10. In one round of the loop, from any state, for corner \<open>v\<close> of the face decoded
  at the cursor: a vertex index outside the \<open>vertices\<close> array (negative, or three
  times it at or past the length) gives NaN for every position component of the corner;
  a per-vertex normal index outside \<open>normals\<close> gives 0 for every normal component; a
  per-vertex UV index outside the first UV channel gives 0 for both UV components.
  Nothing is raised: the loop, which is a total function, ends with the cursor at or
  past the end of the stream, having emitted three position numbers, three normal
  numbers and two UV numbers for every corner of every record.
\<close>

theorem C10_no_bounds_checks:
  "(v < numVertices (isQuad (decode_face (faces d) (cursor s))) \<and> k < 3
      \<and> js_elem (vertexIndices (decode_face (faces d) (cursor s))) v = Some x
      \<and> (x < 0 \<or> int (length (vertices d)) \<le> 3 * x)
      \<longrightarrow> positions (face_step d s) ! (length (positions s) + 3 * v + k) = NaN)
   \<and> (v < numVertices (isQuad (decode_face (faces d) (cursor s))) \<and> k < 3
      \<and> hasFaceVertexNormal (decode_face (faces d) (cursor s))
      \<and> js_elem (faceNormalIndices (decode_face (faces d) (cursor s))) v = Some x
      \<and> (x < 0 \<or> int (length (normals d)) \<le> 3 * x)
      \<longrightarrow> normalData (face_step d s) ! (length (normalData s) + 3 * v + k) = Fin 0)
   \<and> (v < numVertices (isQuad (decode_face (faces d) (cursor s))) \<and> k < 2
      \<and> hasFaceVertexUv (decode_face (faces d) (cursor s))
      \<and> js_elem (faceUvIndices (decode_face (faces d) (cursor s))) v = Some x
      \<and> (x < 0 \<or> int (length (uvs0 d)) \<le> 2 * x)
      \<longrightarrow> uvData (face_step d s) ! (length (uvData s) + 2 * v + k) = Fin 0)
   \<and> length (faces d) \<le> cursor (expand d)
   \<and> length (positions (expand d)) = 3 * num_corners (faces_from (faces d) 0)
   \<and> length (normalData (expand d)) = 3 * num_corners (faces_from (faces d) 0)
   \<and> length (uvData (expand d)) = 2 * num_corners (faces_from (faces d) 0)"
proof -
  have k3: "[a, b, c] ! k = a \<or> [a, b, c] ! k = b \<or> [a, b, c] ! k = c" if "k < 3"
    for a b c :: jsnum
  proof -
    have "k = 0 \<or> k = 1 \<or> k = 2" using that by arith
    then show ?thesis by (elim disjE) simp_all
  qed
  have k2: "[a, b] ! k = a \<or> [a, b] ! k = b" if "k < 2" for a b :: jsnum
  proof -
    have "k = 0 \<or> k = 1" using that by arith
    then show ?thesis by (elim disjE) simp_all
  qed
  show ?thesis
    using k3 [of NaN NaN NaN] k3 [of "Fin 0" "Fin 0" "Fin 0"] k2 [of "Fin 0" "Fin 0"]
    by (auto simp: nth_face_step corner_position_out_of_range corner_normal_out_of_range
          corner_uv_out_of_range lengths_expand expand_consumes
        simp del: length_greater_0_conv)
qed

text \<open>A triangle with per-vertex UVs and normals (flag 40) whose second corner has
  vertex index 1, normal index 1 and UV index 9, all outside arrays that hold a single
  element.\<close>

theorem C10_witness:
  "positions (face_step
       \<lparr> scale = None, vertices = [Fin 5, Fin 6, Fin 7], normals = [Fin 0, Fin 0, Fin 1],
         uvs = [[Fin 1, Fin 1]], faces = [40, 0, 1, -1, 0, 9, -2, 0, 1, -3], materials = [] \<rparr>
       init_state) ! (0 + 3 * 1 + 2) = NaN
   \<and> normalData (face_step
       \<lparr> scale = None, vertices = [Fin 5, Fin 6, Fin 7], normals = [Fin 0, Fin 0, Fin 1],
         uvs = [[Fin 1, Fin 1]], faces = [40, 0, 1, -1, 0, 9, -2, 0, 1, -3], materials = [] \<rparr>
       init_state) ! (0 + 3 * 1 + 2) = Fin 0
   \<and> uvData (face_step
       \<lparr> scale = None, vertices = [Fin 5, Fin 6, Fin 7], normals = [Fin 0, Fin 0, Fin 1],
         uvs = [[Fin 1, Fin 1]], faces = [40, 0, 1, -1, 0, 9, -2, 0, 1, -3], materials = [] \<rparr>
       init_state) ! (0 + 2 * 1 + 1) = Fin 0
   \<and> length (positions (expand
       \<lparr> scale = None, vertices = [Fin 5, Fin 6, Fin 7], normals = [Fin 0, Fin 0, Fin 1],
         uvs = [[Fin 1, Fin 1]], faces = [40, 0, 1, -1, 0, 9, -2, 0, 1, -3], materials = [] \<rparr>)) = 9"
proof -
  let ?d = "\<lparr> scale = None, vertices = [Fin 5, Fin 6, Fin 7], normals = [Fin 0, Fin 0, Fin 1],
         uvs = [[Fin 1, Fin 1]], faces = [40, 0, 1, -1, 0, 9, -2, 0, 1, -3], materials = [] \<rparr>"
  have f: "decode_face (faces ?d) (cursor init_state) =
      \<lparr> isQuad = False, hasFaceVertexUv = True, hasFaceVertexNormal = True,
        vertexIndices = [Some 0, Some 1, Some (-1)],
        faceUvIndices = [Some 0, Some 9, Some (-2)],
        faceNormalIndices = [Some 0, Some 1, Some (-3)], next_i = 10 \<rparr>"
    by (simp add: init_state_def decode_face_def Let_def flag_def js_at_def skip_if_def
        numVertices_def read_indices_def upt_0_3)
  have n: "num_corners (faces_from (faces ?d) 0) = 3"
    by (simp add: faces_from_eval decode_face_def Let_def flag_def js_at_def
        skip_if_def numVertices_def)
  note t = C10_no_bounds_checks [of 1 ?d init_state 2 1, unfolded f]
  note u = C10_no_bounds_checks [of 1 ?d init_state 1 9, unfolded f]
  have a: "positions (face_step ?d init_state) ! (0 + 3 * 1 + 2) = NaN"
    using t [THEN conjunct1] by (simp add: numVertices_def js_elem_def init_state_def)
  have b: "normalData (face_step ?d init_state) ! (0 + 3 * 1 + 2) = Fin 0"
    using t [THEN conjunct2, THEN conjunct1]
    by (simp add: numVertices_def js_elem_def init_state_def)
  have c: "uvData (face_step ?d init_state) ! (0 + 2 * 1 + 1) = Fin 0"
    using u [THEN conjunct2, THEN conjunct2, THEN conjunct1]
    by (simp add: numVertices_def js_elem_def init_state_def uvs0_def)
  have e: "length (positions (expand ?d)) = 9"
    using t [THEN conjunct2, THEN conjunct2, THEN conjunct2, THEN conjunct2, THEN conjunct1] n
    by simp
  show ?thesis using a b c e by (intro conjI)
qed

end
